theory Spec2Isabelle
  imports Main "HOL-Library.Word"
begin

section \<open>Data model\<close>

text \<open>
  \<^verbatim>\<open>fuse_core::UUID\<close> is a 16-byte value (constraint.h and
  acceleration_angular_2d_stamped.h only store, copy and return it). A \<^verbatim>\<open>double\<close>
  is carried as its 64-bit pattern: the headers only store and copy scalars, they never
  compute with them. \<^verbatim>\<open>ros::Time\<close> is a pair of unsigned 32-bit counters.
\<close>

type_synonym UUID = "128 word"

type_synonym double = "64 word"

type_synonym addr = nat

record Time =
  sec :: "32 word"
  nsec :: "32 word"

text \<open>
  The headers call three functions whose definitions are not part of the sources at hand:
  \<^verbatim>\<open>fuse_core::uuid::generate()\<close> (random; it reads and advances a process-wide
  generator, whose state is the type parameter), the three-argument
  \<^verbatim>\<open>fuse_core::uuid::generate(type, stamp, device)\<close> (a pure hash) and
  \<^verbatim>\<open>boost::core::demangle\<close>. They are parameters of the model.
\<close>

record 'g externals =
  generate :: "'g \<Rightarrow> UUID \<times> 'g"
  generate_named :: "string \<Rightarrow> Time \<Rightarrow> UUID \<Rightarrow> UUID"
  demangle :: "string \<Rightarrow> string"

text \<open>\<^verbatim>\<open>fuse_core::uuid::NIL\<close>, the default device id.\<close>

definition NIL :: UUID where
  "NIL = 0"

datatype LossFunction = LossObject nat

text \<open>
  \<^verbatim>\<open>Constraint\<close> is an abstract class. A concrete kind is a derived class: it has
  its own \<^verbatim>\<open>typeid\<close> name, and it may or may not override the two virtual member
  functions that have a body in the base class, \<^verbatim>\<open>type()\<close> and
  \<^verbatim>\<open>lossFunction()\<close>. \<open>None\<close> means that the base-class body is inherited;
  \<open>Some r\<close> means that the override returns \<open>r\<close> (for the loss function: a pointer to a
  loss object, or the null pointer, \<open>None\<close>). An override of \<^verbatim>\<open>type()\<close> is taken
  to return one fixed string per class, the name that the comment on \<^verbatim>\<open>type()\<close>
  (constraint.h, lines 99-104) asks for.
\<close>

record ConstraintKind =
  typeid_name :: string
  type_override :: "string option"
  lossFunction_override :: "LossFunction option option"

text \<open>
  The data members of \<^verbatim>\<open>Constraint\<close> (constraint.h, lines 176-178) are
  \<^verbatim>\<open>uuid_\<close> and \<^verbatim>\<open>variables_\<close>; \<open>kind\<close> is the dynamic type of the object.
\<close>

record Constraint =
  kind :: ConstraintKind
  c_uuid :: UUID
  c_variables :: "UUID list"

datatype error = InvalidRange | EmptyVariableList | BadObject

section \<open>The constraint interface\<close>

subsection \<open>Construction from an iterator range\<close>

text \<open>
  constraint.h, lines 187-195. An iterator is a position in the underlying sequence
  \<open>src\<close>. The loop runs while \<^verbatim>\<open>first != last\<close>, and each round appends
  \<^verbatim>\<open>*first++\<close>. Reading at or past the end of \<open>src\<close> is undefined in C++; the model
  stops there with \<open>None\<close>.
\<close>

function range_loop :: "UUID list \<Rightarrow> nat \<Rightarrow> nat \<Rightarrow> UUID list \<Rightarrow> UUID list option" where
  "range_loop src first last' vars =
     (if first \<noteq> last' then
        (if first < length src
         then range_loop src (Suc first) last' (vars @ [src ! first])
         else None)
      else Some vars)"
  by pat_completeness auto
termination
  by (relation "measure (\<lambda>(src, first, last', vars). length src - first)") auto

declare range_loop.simps [simp del]

text \<open>
  The member initialiser \<^verbatim>\<open>uuid_(uuid::generate())\<close> runs first, then
  \<^verbatim>\<open>variables_\<close> starts empty and the loop fills it.
\<close>

definition Constraint_range ::
  "'g externals \<Rightarrow> ConstraintKind \<Rightarrow> UUID list \<Rightarrow> nat \<Rightarrow> nat \<Rightarrow> 'g \<Rightarrow> error + (Constraint \<times> 'g)" where
  "Constraint_range ext k src first last' g =
     (let (u, g') = generate ext g in
      case range_loop src first last' [] of
        None \<Rightarrow> Inl InvalidRange
      | Some vars \<Rightarrow> Inr (\<lparr>kind = k, c_uuid = u, c_variables = vars\<rparr>, g'))"

subsection \<open>Member functions with a body in constraint.h\<close>

definition Constraint_uuid :: "Constraint \<Rightarrow> UUID" where
  "Constraint_uuid c = c_uuid c"

definition Constraint_variables :: "Constraint \<Rightarrow> UUID list" where
  "Constraint_variables c = c_variables c"

text \<open>
  \<^verbatim>\<open>type()\<close> is virtual: the call goes to the override when the dynamic type has one,
  and to \<^verbatim>\<open>boost::core::demangle(typeid(*this).name())\<close> otherwise.
\<close>

definition Constraint_type :: "'g externals \<Rightarrow> Constraint \<Rightarrow> string" where
  "Constraint_type ext c =
     (case type_override (kind c) of
        Some s \<Rightarrow> s
      | None \<Rightarrow> demangle ext (typeid_name (kind c)))"

text \<open>\<^verbatim>\<open>lossFunction()\<close> is virtual; the base-class body returns \<^verbatim>\<open>nullptr\<close>.\<close>

definition Constraint_lossFunction :: "Constraint \<Rightarrow> LossFunction option" where
  "Constraint_lossFunction c =
     (case lossFunction_override (kind c) of
        Some r \<Rightarrow> r
      | None \<Rightarrow> None)"

subsection \<open>Construction from an initializer list\<close>

text \<open>
  Modelled from the spec: the body of \<^verbatim>\<open>Constraint(std::initializer_list<UUID>)\<close>
  is declared in constraint.h (line 84) and defined in a source file that is not at hand.
  The spec: the identifier is random and generated once at construction, the endpoints are
  kept in order, and construction fails if the list is empty.
\<close>

definition Constraint_list ::
  "'g externals \<Rightarrow> ConstraintKind \<Rightarrow> UUID list \<Rightarrow> 'g \<Rightarrow> error + (Constraint \<times> 'g)" where
  "Constraint_list ext k variable_uuid_list g =
     (if variable_uuid_list = [] then Inl EmptyVariableList
      else (let (u, g') = generate ext g in
            Inr (\<lparr>kind = k, c_uuid = u, c_variables = variable_uuid_list\<rparr>, g')))"

subsection \<open>Copying\<close>

text \<open>
  Modelled from the spec: \<^verbatim>\<open>clone()\<close> is pure virtual in constraint.h (line 169);
  its bodies are in derived classes that are not at hand. The spec asks for a deep copy
  that preserves identifier, endpoint list and behaviour, and the comment in constraint.h
  (lines 159-168) prescribes \<^verbatim>\<open>Derived::make_unique(*this)\<close>, the copy
  constructor: every member is copied and no new identifier is drawn.
\<close>

definition Constraint_clone :: "Constraint \<Rightarrow> Constraint" where
  "Constraint_clone c = \<lparr>kind = kind c, c_uuid = c_uuid c, c_variables = c_variables c\<rparr>"

subsection \<open>Copy assignment\<close>

text \<open>
  constraint.h declares no \<^verbatim>\<open>operator=\<close> and deletes none, so the class has the
  implicitly declared public copy assignment: \<^verbatim>\<open>a = b\<close> assigns the data members
  one by one (lines 177-178). The dynamic type of the target stays what it is.
\<close>

definition Constraint_assign :: "Constraint \<Rightarrow> Constraint \<Rightarrow> Constraint" where
  "Constraint_assign other c = c\<lparr>c_uuid := c_uuid other, c_variables := c_variables other\<rparr>"

section \<open>The stamped variable\<close>

text \<open>
  \<^verbatim>\<open>AccelerationAngular2DStamped\<close> derives from \<^verbatim>\<open>FixedSizeVariable<1>\<close>,
  which holds the scalar array \<^verbatim>\<open>data_\<close> inside the object, and from
  \<^verbatim>\<open>Stamped\<close>, which holds the timestamp and the device id; its own member is
  \<^verbatim>\<open>uuid_\<close> (acceleration_angular_2d_stamped.h, line 110). The array has one
  element, at index \<^verbatim>\<open>YAW\<close>: the list \<open>v_data\<close> gets its length from the
  constructor, and no operation changes the length.
\<close>

record AccelerationAngular2DStamped =
  v_stamp :: Time
  v_device_id :: UUID
  v_data :: "double list"
  v_uuid :: UUID

definition YAW :: nat where
  "YAW = 0"

text \<open>
  Modelled from the spec: the type discriminator that the constructor hands to the
  deterministic generator is computed in a source file that is not at hand. The spec:
  each kind fixes a type discriminator string; the fully qualified class name is taken.
\<close>

definition AccelerationAngular2DStamped_type :: string where
  "AccelerationAngular2DStamped_type = ''fuse_variables::AccelerationAngular2DStamped''"

text \<open>
  Modelled from the spec: the constructor is declared in
  acceleration_angular_2d_stamped.h (lines 74-76) and defined in a source file that is not
  at hand. The spec: the identifier equals the deterministic generator applied to the
  type discriminator, the timestamp and the device id, and the scalar buffer starts at
  zero.
\<close>

definition AccelerationAngular2DStamped_new ::
  "'g externals \<Rightarrow> Time \<Rightarrow> UUID \<Rightarrow> AccelerationAngular2DStamped" where
  "AccelerationAngular2DStamped_new ext stamp device_id =
     \<lparr>v_stamp = stamp, v_device_id = device_id, v_data = [0],
      v_uuid = generate_named ext AccelerationAngular2DStamped_type stamp device_id\<rparr>"

text \<open>Line 93: \<^verbatim>\<open>uuid()\<close> returns the stored member.\<close>

definition Variable_uuid :: "AccelerationAngular2DStamped \<Rightarrow> UUID" where
  "Variable_uuid v = v_uuid v"

text \<open>
  Lines 81 and 86: \<^verbatim>\<open>yaw()\<close> is \<^verbatim>\<open>data_[YAW]\<close>, as a value for reading and as
  a reference for writing; \<open>yaw_assign x\<close> is the assignment \<^verbatim>\<open>v.yaw() = x\<close>.
\<close>

definition yaw :: "AccelerationAngular2DStamped \<Rightarrow> double" where
  "yaw v = v_data v ! YAW"

definition yaw_assign :: "double \<Rightarrow> AccelerationAngular2DStamped \<Rightarrow> AccelerationAngular2DStamped" where
  "yaw_assign x v = v\<lparr>v_data := (v_data v)[YAW := x]\<rparr>"

text \<open>
  Modelled from the spec: \<^verbatim>\<open>clone()\<close> is declared in
  acceleration_angular_2d_stamped.h (line 107) and defined in a source file that is not at
  hand. The spec: a value-identical, fully independent copy, with a deep copy of the
  scalar buffer and of the identity.
\<close>

definition Variable_clone :: "AccelerationAngular2DStamped \<Rightarrow> AccelerationAngular2DStamped" where
  "Variable_clone v =
     \<lparr>v_stamp = v_stamp v, v_device_id = v_device_id v, v_data = v_data v, v_uuid = v_uuid v\<rparr>"

section \<open>Objects in a store\<close>

text \<open>
  Objects live at addresses; an address is an index into the store, and construction
  appends. The random generator is process-wide state beside the store. Nothing in the two
  headers destroys an object, so an address stays valid once it is allocated.
\<close>

datatype obj = VarObj AccelerationAngular2DStamped | ConObj Constraint

record 'g world =
  heap :: "obj list"
  rng :: 'g

definition var_at :: "'g world \<Rightarrow> addr \<Rightarrow> AccelerationAngular2DStamped option" where
  "var_at w a =
     (if a < length (heap w)
      then (case heap w ! a of VarObj v \<Rightarrow> Some v | ConObj c \<Rightarrow> None)
      else None)"

definition con_at :: "'g world \<Rightarrow> addr \<Rightarrow> Constraint option" where
  "con_at w a =
     (if a < length (heap w)
      then (case heap w ! a of VarObj v \<Rightarrow> None | ConObj c \<Rightarrow> Some c)
      else None)"

fun clone :: "obj \<Rightarrow> obj" where
  "clone (VarObj v) = VarObj (Variable_clone v)"
| "clone (ConObj c) = ConObj (Constraint_clone c)"

text \<open>
  What a client can do with the two classes. \<open>Call a\<close> stands for a call of any
  \<^verbatim>\<open>const\<close> member function on the object at \<open>a\<close> (\<^verbatim>\<open>uuid()\<close>,
  \<^verbatim>\<open>variables()\<close>, \<^verbatim>\<open>type()\<close>, \<^verbatim>\<open>lossFunction()\<close>,
  \<^verbatim>\<open>costFunction()\<close>, \<^verbatim>\<open>print()\<close>, the reading \<^verbatim>\<open>yaw()\<close>): it leaves
  the store as it is. \<open>AssignConstraint a b\<close> is the copy assignment of the constraint
  at \<open>b\<close> to the constraint at \<open>a\<close>. Whether a stamped variable can be assigned
  depends on its base classes, which are not at hand; the store has no such command.
  Using an address that holds no object of the right class is an error.
\<close>

datatype cmd =
    NewConstraintRange ConstraintKind "UUID list" nat nat
  | NewConstraintList ConstraintKind "UUID list"
  | NewVariable Time UUID
  | AssignYaw addr double
  | AssignConstraint addr addr
  | Clone addr
  | Call addr

fun exec :: "'g externals \<Rightarrow> cmd \<Rightarrow> 'g world \<Rightarrow> error + 'g world" where
  "exec ext (NewConstraintRange k src first last') w =
     (case Constraint_range ext k src first last' (rng w) of
        Inl e \<Rightarrow> Inl e
      | Inr (c, g') \<Rightarrow> Inr \<lparr>heap = heap w @ [ConObj c], rng = g'\<rparr>)"
| "exec ext (NewConstraintList k xs) w =
     (case Constraint_list ext k xs (rng w) of
        Inl e \<Rightarrow> Inl e
      | Inr (c, g') \<Rightarrow> Inr \<lparr>heap = heap w @ [ConObj c], rng = g'\<rparr>)"
| "exec ext (NewVariable stamp device_id) w =
     Inr \<lparr>heap = heap w @ [VarObj (AccelerationAngular2DStamped_new ext stamp device_id)],
          rng = rng w\<rparr>"
| "exec ext (AssignYaw a x) w =
     (case var_at w a of
        None \<Rightarrow> Inl BadObject
      | Some v \<Rightarrow> Inr \<lparr>heap = (heap w)[a := VarObj (yaw_assign x v)], rng = rng w\<rparr>)"
| "exec ext (AssignConstraint a b) w =
     (case con_at w a of
        None \<Rightarrow> Inl BadObject
      | Some c \<Rightarrow>
          (case con_at w b of
             None \<Rightarrow> Inl BadObject
           | Some other \<Rightarrow>
               Inr \<lparr>heap = (heap w)[a := ConObj (Constraint_assign other c)], rng = rng w\<rparr>))"
| "exec ext (Clone a) w =
     (if a < length (heap w)
      then Inr \<lparr>heap = heap w @ [clone (heap w ! a)], rng = rng w\<rparr>
      else Inl BadObject)"
| "exec ext (Call a) w =
     (if a < length (heap w) then Inr w else Inl BadObject)"

fun run :: "'g externals \<Rightarrow> cmd list \<Rightarrow> 'g world \<Rightarrow> error + 'g world" where
  "run ext [] w = Inr w"
| "run ext (c # cs) w =
     (case exec ext c w of
        Inl e \<Rightarrow> Inl e
      | Inr w' \<Rightarrow> run ext cs w')"

text \<open>Whether a command assigns through \<^verbatim>\<open>yaw()\<close> of the object at \<open>a\<close>.\<close>

fun writes_to :: "addr \<Rightarrow> cmd \<Rightarrow> bool" where
  "writes_to a (AssignYaw b x) = (a = b)"
| "writes_to a (NewConstraintRange k src first last') = False"
| "writes_to a (NewConstraintList k xs) = False"
| "writes_to a (NewVariable stamp device_id) = False"
| "writes_to a (AssignConstraint b c) = False"
| "writes_to a (Clone b) = False"
| "writes_to a (Call b) = False"

text \<open>Whether a command is a copy assignment to the constraint at \<open>a\<close>.\<close>

fun assigns_to :: "addr \<Rightarrow> cmd \<Rightarrow> bool" where
  "assigns_to a (AssignConstraint b c) = (a = b)"
| "assigns_to a (NewConstraintRange k src first last') = False"
| "assigns_to a (NewConstraintList k xs) = False"
| "assigns_to a (NewVariable stamp device_id) = False"
| "assigns_to a (AssignYaw b x) = False"
| "assigns_to a (Clone b) = False"
| "assigns_to a (Call b) = False"

text \<open>
  The only write to a variable is the assignment through \<open>yaw()\<close>, and it touches the
  scalar array only.
\<close>

definition same_identity :: "AccelerationAngular2DStamped \<Rightarrow> AccelerationAngular2DStamped \<Rightarrow> bool" where
  "same_identity v v' \<longleftrightarrow>
     v_uuid v' = v_uuid v \<and> v_stamp v' = v_stamp v \<and> v_device_id v' = v_device_id v
     \<and> length (v_data v') = length (v_data v)"

section \<open>A concrete environment\<close>

text \<open>
  A deterministic stand-in for the external functions: the generator hands out
  \<open>0, 1, 2, \<dots>\<close>, the hash adds up its inputs, and demangling is the identity.
\<close>

definition counter_ext :: "nat externals" where
  "counter_ext =
     \<lparr>generate = (\<lambda>n. (word_of_nat n, Suc n)),
      generate_named = (\<lambda>t s d. word_of_nat (length t) + ucast (sec s) + ucast (nsec s) + d),
      demangle = (\<lambda>s. s)\<rparr>"

definition plain_kind :: "string \<Rightarrow> ConstraintKind" where
  "plain_kind n = \<lparr>typeid_name = n, type_override = None, lossFunction_override = None\<rparr>"

definition renamed_kind :: "string \<Rightarrow> string \<Rightarrow> ConstraintKind" where
  "renamed_kind n t = \<lparr>typeid_name = n, type_override = Some t, lossFunction_override = None\<rparr>"

definition empty_world :: "nat world" where
  "empty_world = \<lparr>heap = [], rng = 0\<rparr>"

section \<open>The copy loop\<close>

lemma range_loop_valid:
  "first \<le> last' \<Longrightarrow> last' \<le> length src \<Longrightarrow>
   range_loop src first last' vars = Some (vars @ take (last' - first) (drop first src))"
proof (induction src first last' vars rule: range_loop.induct)
  case (1 src first last' vars)
  show ?case
  proof (cases "first = last'")
    case True
    then show ?thesis by (simp add: range_loop.simps)
  next
    case False
    with "1.prems" have lt: "first < last'" and inb: "first < length src" by auto
    have step: "take (last' - first) (drop first src)
                = src ! first # take (last' - Suc first) (drop (Suc first) src)"
    proof -
      have "drop first src = src ! first # drop (Suc first) src"
        using inb by (simp add: Cons_nth_drop_Suc)
      moreover have "last' - first = Suc (last' - Suc first)"
        using lt by simp
      ultimately show ?thesis by simp
    qed
    have "range_loop src first last' vars
          = range_loop src (Suc first) last' (vars @ [src ! first])"
      using False inb by (simp add: range_loop.simps)
    also have "\<dots> = Some ((vars @ [src ! first]) @ take (last' - Suc first) (drop (Suc first) src))"
      using "1.IH" [OF False inb] lt "1.prems" by simp
    finally show ?thesis using step by simp
  qed
qed

lemma range_loop_Some:
  "range_loop src first last' vars = Some r \<Longrightarrow>
   first \<le> last' \<and> r = vars @ take (last' - first) (drop first src)"
proof (induction src first last' vars rule: range_loop.induct)
  case (1 src first last' vars)
  show ?case
  proof (cases "first = last'")
    case True
    with "1.prems" show ?thesis by (simp add: range_loop.simps)
  next
    case False
    have inb: "first < length src"
      using "1.prems" False by (simp add: range_loop.simps split: if_splits)
    have rec: "range_loop src (Suc first) last' (vars @ [src ! first]) = Some r"
      using "1.prems" False inb by (simp add: range_loop.simps)
    from "1.IH" [OF False inb rec]
    have le: "Suc first \<le> last'"
      and r: "r = (vars @ [src ! first]) @ take (last' - Suc first) (drop (Suc first) src)"
      by simp_all
    have "drop first src = src ! first # drop (Suc first) src"
      using inb by (simp add: Cons_nth_drop_Suc)
    moreover have "last' - first = Suc (last' - Suc first)"
      using le by simp
    ultimately have "take (last' - first) (drop first src)
                     = src ! first # take (last' - Suc first) (drop (Suc first) src)"
      by simp
    with r le show ?thesis by simp
  qed
qed

lemma range_as_map:
  assumes "last' \<le> length src"
  shows "take (last' - first) (drop first src) = map ((!) src) [first..<last']"
proof (rule nth_equalityI)
  show "length (take (last' - first) (drop first src)) = length (map ((!) src) [first..<last'])"
    using assms by simp
next
  fix i
  assume "i < length (take (last' - first) (drop first src))"
  then have i: "i < last' - first" by simp
  then show "take (last' - first) (drop first src) ! i = map ((!) src) [first..<last'] ! i"
    using assms by (simp add: nth_map_upt)
qed

lemma range_loop_in_bounds:
  "range_loop src first last' vars = Some r \<Longrightarrow> first = last' \<or> last' \<le> length src"
proof (induction src first last' vars rule: range_loop.induct)
  case (1 src first last' vars)
  show ?case
  proof (cases "first = last'")
    case True
    then show ?thesis by simp
  next
    case False
    have inb: "first < length src"
      using "1.prems" False by (simp add: range_loop.simps split: if_splits)
    have rec: "range_loop src (Suc first) last' (vars @ [src ! first]) = Some r"
      using "1.prems" False inb by (simp add: range_loop.simps)
    from "1.IH" [OF False inb rec] inb show ?thesis by auto
  qed
qed

lemma Constraint_range_Inr:
  assumes "Constraint_range ext k src first last' g = Inr (c, g')"
  shows "first \<le> last'"
    and "kind c = k"
    and "c_uuid c = fst (generate ext g)"
    and "g' = snd (generate ext g)"
    and "c_variables c = map ((!) src) [first..<last']"
proof -
  obtain r where r: "range_loop src first last' [] = Some r"
    and c: "c = \<lparr>kind = k, c_uuid = fst (generate ext g), c_variables = r\<rparr>"
    and g: "g' = snd (generate ext g)"
    using assms
    by (auto simp: Constraint_range_def split_beta Let_def split: option.splits)
  from range_loop_Some [OF r]
  have le: "first \<le> last'" and rr: "r = take (last' - first) (drop first src)" by simp_all
  show "first \<le> last'" by (rule le)
  show "kind c = k" "c_uuid c = fst (generate ext g)" using c by simp_all
  show "g' = snd (generate ext g)" by (rule g)
  from range_loop_in_bounds [OF r]
  show "c_variables c = map ((!) src) [first..<last']"
  proof
    assume "first = last'"
    with rr c show ?thesis by simp
  next
    assume "last' \<le> length src"
    with rr c show ?thesis by (simp add: range_as_map)
  qed
qed

lemma Constraint_range_valid:
  assumes "first \<le> last'" and "last' \<le> length src"
  shows "Constraint_range ext k src first last' g =
         Inr (\<lparr>kind = k, c_uuid = fst (generate ext g),
               c_variables = map ((!) src) [first..<last']\<rparr>, snd (generate ext g))"
  using assms
  by (simp add: Constraint_range_def split_beta Let_def range_loop_valid range_as_map)

section \<open>What a step leaves alone\<close>

lemma con_at_append:
  "con_at w a = Some c \<Longrightarrow> con_at \<lparr>heap = heap w @ os, rng = g\<rparr> a = Some c"
  by (auto simp: con_at_def nth_append split: if_splits)

lemma var_at_append:
  "var_at w a = Some v \<Longrightarrow> var_at \<lparr>heap = heap w @ os, rng = g\<rparr> a = Some v"
  by (auto simp: var_at_def nth_append split: if_splits)

lemma con_at_new:
  "con_at \<lparr>heap = h @ [ConObj c], rng = g\<rparr> (length h) = Some c"
  by (simp add: con_at_def)

lemma var_at_new:
  "var_at \<lparr>heap = h @ [VarObj v], rng = g\<rparr> (length h) = Some v"
  by (simp add: var_at_def)

lemma con_at_update:
  "con_at w a = Some c \<Longrightarrow> con_at \<lparr>heap = (heap w)[b := VarObj v], rng = g\<rparr> a
     = (if a = b then None else Some c)"
  by (auto simp: con_at_def nth_list_update split: if_splits obj.splits)

lemma var_at_update:
  "var_at w a = Some u \<Longrightarrow> var_at \<lparr>heap = (heap w)[b := VarObj v], rng = g\<rparr> a
     = (if a = b then Some v else Some u)"
  by (auto simp: var_at_def nth_list_update split: if_splits obj.splits)

lemma var_con_exclusive:
  "var_at w a = Some v \<Longrightarrow> con_at w a = None"
  by (auto simp: var_at_def con_at_def split: if_splits obj.splits)

lemma con_at_update_con:
  "con_at w a = Some c \<Longrightarrow> con_at \<lparr>heap = (heap w)[b := ConObj d], rng = g\<rparr> a
     = (if a = b then Some d else Some c)"
  by (auto simp: con_at_def nth_list_update split: if_splits obj.splits)

lemma var_at_update_con:
  "var_at w a = Some u \<Longrightarrow> var_at \<lparr>heap = (heap w)[b := ConObj d], rng = g\<rparr> a
     = (if a = b then None else Some u)"
  by (auto simp: var_at_def nth_list_update split: if_splits obj.splits)

lemma exec_AssignConstraint_Inr:
  assumes "exec ext (AssignConstraint b e) w = Inr w'"
  shows "\<exists>c other. con_at w b = Some c \<and> con_at w e = Some other
           \<and> w' = \<lparr>heap = (heap w)[b := ConObj (Constraint_assign other c)], rng = rng w\<rparr>"
  using assms by (auto split: option.splits)

lemma exec_AssignConstraint_var:
  assumes "exec ext (AssignConstraint b e) w = Inr w'" and "var_at w a = Some v"
  shows "var_at w' a = Some v"
proof -
  from exec_AssignConstraint_Inr [OF assms(1)] obtain c d where
    c: "con_at w b = Some c"
    and w': "w' = \<lparr>heap = (heap w)[b := ConObj d], rng = rng w\<rparr>"
    by blast
  from assms(2) have "con_at w a = None" by (rule var_con_exclusive)
  with c have "a \<noteq> b" by auto
  with assms(2) w' show ?thesis by (simp add: var_at_update_con)
qed

lemma exec_con_at:
  assumes "exec ext cm w = Inr w'" and "con_at w a = Some c" and "\<not> assigns_to a cm"
  shows "con_at w' a = Some c"
proof (cases cm)
  case (AssignConstraint b e)
  with assms(1) obtain d where
    w': "w' = \<lparr>heap = (heap w)[b := ConObj d], rng = rng w\<rparr>"
    using exec_AssignConstraint_Inr by blast
  from AssignConstraint assms(3) have "a \<noteq> b" by simp
  with assms(2) w' show ?thesis by (simp add: con_at_update_con)
next
  case (NewConstraintRange k src first last')
  with assms show ?thesis
    by (auto simp: con_at_append split: sum.splits)
next
  case (NewConstraintList k xs)
  with assms show ?thesis
    by (auto simp: con_at_append split: sum.splits)
next
  case (NewVariable stamp device_id)
  with assms show ?thesis
    by (auto simp: con_at_append)
next
  case (AssignYaw b x)
  with assms obtain v where v: "var_at w b = Some v"
    and w': "w' = \<lparr>heap = (heap w)[b := VarObj (yaw_assign x v)], rng = rng w\<rparr>"
    by (auto split: option.splits)
  from v have "con_at w b = None" by (rule var_con_exclusive)
  with assms(2) have "a \<noteq> b" by auto
  with assms(2) w' show ?thesis by (simp add: con_at_update)
next
  case (Clone b)
  with assms show ?thesis
    by (auto simp: con_at_append split: if_splits)
next
  case (Call b)
  with assms show ?thesis
    by (auto split: if_splits)
qed

lemma exec_var_at:
  assumes "exec ext cm w = Inr w'" and "var_at w a = Some v"
  shows "\<exists>v'. var_at w' a = Some v' \<and> same_identity v v'"
proof (cases cm)
  case (AssignConstraint b e)
  with assms(1) have "exec ext (AssignConstraint b e) w = Inr w'" by simp
  from exec_AssignConstraint_var [OF this assms(2)] show ?thesis
    by (simp add: same_identity_def)
next
  case (NewConstraintRange k src first last')
  with assms show ?thesis
    by (auto simp: var_at_append same_identity_def split: sum.splits)
next
  case (NewConstraintList k xs)
  with assms show ?thesis
    by (auto simp: var_at_append same_identity_def split: sum.splits)
next
  case (NewVariable stamp device_id)
  with assms show ?thesis
    by (auto simp: var_at_append same_identity_def)
next
  case (AssignYaw b x)
  with assms obtain u where u: "var_at w b = Some u"
    and w': "w' = \<lparr>heap = (heap w)[b := VarObj (yaw_assign x u)], rng = rng w\<rparr>"
    by (auto split: option.splits)
  show ?thesis
  proof (cases "a = b")
    case True
    with u assms(2) have "u = v" by simp
    with True w' assms(2) show ?thesis
      by (simp add: var_at_update same_identity_def yaw_assign_def)
  next
    case False
    with w' assms(2) show ?thesis
      by (simp add: var_at_update same_identity_def)
  qed
next
  case (Clone b)
  with assms show ?thesis
    by (auto simp: var_at_append same_identity_def split: if_splits)
next
  case (Call b)
  with assms show ?thesis
    by (auto simp: same_identity_def split: if_splits)
qed

lemma same_identity_trans:
  "same_identity u v \<Longrightarrow> same_identity v w \<Longrightarrow> same_identity u w"
  by (simp add: same_identity_def)

lemma run_con_at:
  "run ext cms w = Inr w' \<Longrightarrow> list_all (\<lambda>cm. \<not> assigns_to a cm) cms \<Longrightarrow>
   con_at w a = Some c \<Longrightarrow> con_at w' a = Some c"
proof (induction cms arbitrary: w)
  case Nil
  then show ?case by simp
next
  case (Cons cm cms)
  from Cons.prems(1) obtain w1 where
    s: "exec ext cm w = Inr w1" and r: "run ext cms w1 = Inr w'"
    by (auto split: sum.splits)
  from Cons.prems(2) have n: "\<not> assigns_to a cm"
    and ns: "list_all (\<lambda>cm. \<not> assigns_to a cm) cms" by simp_all
  from exec_con_at [OF s Cons.prems(3) n] have "con_at w1 a = Some c" .
  from Cons.IH [OF r ns this] show ?case .
qed

text \<open>Copy assignment replaces the data members and leaves the dynamic type.\<close>

lemma exec_con_kind:
  assumes "exec ext cm w = Inr w'" and "con_at w a = Some c"
  shows "\<exists>c'. con_at w' a = Some c' \<and> kind c' = kind c"
proof (cases "assigns_to a cm")
  case False
  from exec_con_at [OF assms False] show ?thesis by simp
next
  case True
  then obtain e where cm: "cm = AssignConstraint a e"
    by (cases cm) simp_all
  with assms(1) have "exec ext (AssignConstraint a e) w = Inr w'" by simp
  from exec_AssignConstraint_Inr [OF this] assms(2) obtain other where
    "w' = \<lparr>heap = (heap w)[a := ConObj (Constraint_assign other c)], rng = rng w\<rparr>"
    by auto
  with assms(2) show ?thesis
    by (simp add: con_at_update_con Constraint_assign_def)
qed

lemma run_con_kind:
  "run ext cms w = Inr w' \<Longrightarrow> con_at w a = Some c \<Longrightarrow>
   \<exists>c'. con_at w' a = Some c' \<and> kind c' = kind c"
proof (induction cms arbitrary: w c)
  case Nil
  then show ?case by simp
next
  case (Cons cm cms)
  from Cons.prems(1) obtain w1 where
    s: "exec ext cm w = Inr w1" and r: "run ext cms w1 = Inr w'"
    by (auto split: sum.splits)
  from exec_con_kind [OF s Cons.prems(2)] obtain c1 where
    c1: "con_at w1 a = Some c1" and k1: "kind c1 = kind c" by blast
  from Cons.IH [OF r c1] k1 show ?case by auto
qed

lemma run_var_at:
  "run ext cms w = Inr w' \<Longrightarrow> var_at w a = Some v \<Longrightarrow>
   \<exists>v'. var_at w' a = Some v' \<and> same_identity v v'"
proof (induction cms arbitrary: w v)
  case Nil
  then show ?case by (auto simp: same_identity_def)
next
  case (Cons cm cms)
  from Cons.prems(1) obtain w1 where
    s: "exec ext cm w = Inr w1" and r: "run ext cms w1 = Inr w'"
    by (auto split: sum.splits)
  from exec_var_at [OF s Cons.prems(2)] obtain v1 where
    v1: "var_at w1 a = Some v1" and i1: "same_identity v v1" by blast
  from Cons.IH [OF r v1] obtain v' where
    "var_at w' a = Some v'" and "same_identity v1 v'" by blast
  with i1 show ?case by (blast intro: same_identity_trans)
qed

lemma exec_range_Inr:
  assumes "exec ext (NewConstraintRange k src first last') w = Inr w1"
  shows "\<exists>c. Constraint_range ext k src first last' (rng w) = Inr (c, rng w1)
           \<and> heap w1 = heap w @ [ConObj c] \<and> con_at w1 (length (heap w)) = Some c"
  using assms by (auto simp: con_at_def split: sum.splits)

lemma Constraint_list_Inr:
  assumes "xs \<noteq> []"
  shows "Constraint_list ext k xs g =
         Inr (\<lparr>kind = k, c_uuid = fst (generate ext g), c_variables = xs\<rparr>, snd (generate ext g))"
  using assms by (simp add: Constraint_list_def split_beta Let_def)

section \<open>Writes stay local\<close>

lemma exec_var_untouched:
  assumes "exec ext cm w = Inr w'" and "\<not> writes_to a cm" and "var_at w a = Some v"
  shows "var_at w' a = Some v"
proof (cases cm)
  case (AssignConstraint b e)
  with assms(1) have "exec ext (AssignConstraint b e) w = Inr w'" by simp
  from exec_AssignConstraint_var [OF this assms(3)] show ?thesis .
next
  case (AssignYaw b x)
  with assms(1) obtain u where
    w': "w' = \<lparr>heap = (heap w)[b := VarObj (yaw_assign x u)], rng = rng w\<rparr>"
    by (auto split: option.splits)
  from AssignYaw assms(2) have "a \<noteq> b" by simp
  with w' assms(3) show ?thesis by (simp add: var_at_update)
next
  case (NewConstraintRange k src first last')
  with assms show ?thesis by (auto simp: var_at_append split: sum.splits)
next
  case (NewConstraintList k xs)
  with assms show ?thesis by (auto simp: var_at_append split: sum.splits)
next
  case (NewVariable stamp device_id)
  with assms show ?thesis by (auto simp: var_at_append)
next
  case (Clone b)
  with assms show ?thesis by (auto simp: var_at_append split: if_splits)
next
  case (Call b)
  with assms show ?thesis by (auto split: if_splits)
qed

lemma run_var_untouched:
  "run ext cms w = Inr w' \<Longrightarrow> list_all (\<lambda>cm. \<not> writes_to a cm) cms \<Longrightarrow>
   var_at w a = Some v \<Longrightarrow> var_at w' a = Some v"
proof (induction cms arbitrary: w)
  case Nil
  then show ?case by simp
next
  case (Cons cm cms)
  from Cons.prems(1) obtain w1 where
    s: "exec ext cm w = Inr w1" and r: "run ext cms w1 = Inr w'"
    by (auto split: sum.splits)
  from Cons.prems(2) have n: "\<not> writes_to a cm"
    and ns: "list_all (\<lambda>cm. \<not> writes_to a cm) cms" by simp_all
  from exec_var_untouched [OF s n Cons.prems(3)] have "var_at w1 a = Some v" .
  from Cons.IH [OF r ns this] show ?case .
qed

lemma exec_AssignYaw:
  assumes "var_at w a = Some v"
  shows "exec ext (AssignYaw a x) w
         = Inr \<lparr>heap = (heap w)[a := VarObj (yaw_assign x v)], rng = rng w\<rparr>"
    and "var_at \<lparr>heap = (heap w)[a := VarObj (yaw_assign x v)], rng = rng w\<rparr> a
         = Some (yaw_assign x v)"
  using assms by (simp_all add: var_at_update)

lemma yaw_yaw_assign:
  "v_data v \<noteq> [] \<Longrightarrow> yaw (yaw_assign x v) = x"
  by (simp add: yaw_def yaw_assign_def YAW_def)

lemma same_identity_data:
  "same_identity u v \<Longrightarrow> v_data u \<noteq> [] \<Longrightarrow> v_data v \<noteq> []"
  by (auto simp: same_identity_def)

lemma exec_NewVariable:
  "exec ext (NewVariable s d) w = Inr w1 \<Longrightarrow>
   var_at w1 (length (heap w)) = Some (AccelerationAngular2DStamped_new ext s d)"
  by (auto simp: var_at_def)

lemma var_at_in_heap:
  "var_at w a = Some v \<Longrightarrow> a < length (heap w)"
  by (simp add: var_at_def split: if_splits)

lemma assign_local:
  assumes "var_at w a = Some v" and "var_at w b = Some u" and "a \<noteq> b"
  shows "\<exists>w2. exec ext (AssignYaw a x) w = Inr w2
           \<and> var_at w2 a = Some (yaw_assign x v) \<and> var_at w2 b = Some u"
  using assms by (simp add: var_at_update)

lemma exec_AssignConstraint:
  assumes "con_at w a = Some c" and "con_at w b = Some other"
  shows "\<exists>w3 c3. exec ext (AssignConstraint a b) w = Inr w3
           \<and> con_at w3 a = Some c3
           \<and> Constraint_variables c3 = Constraint_variables other
           \<and> Constraint_uuid c3 = Constraint_uuid other
           \<and> kind c3 = kind c
           \<and> rng w3 = rng w"
  using assms
  by (simp add: con_at_update_con Constraint_assign_def Constraint_variables_def
        Constraint_uuid_def)

lemma exec_Clone_con:
  assumes "con_at w a = Some c"
  shows "\<exists>w3 c3. exec ext (Clone a) w = Inr w3
           \<and> con_at w3 (length (heap w)) = Some c3
           \<and> Constraint_uuid c3 = Constraint_uuid c
           \<and> rng w3 = rng w"
proof -
  from assms have "a < length (heap w)" and "heap w ! a = ConObj c"
    by (auto simp: con_at_def split: if_splits obj.splits)
  then show ?thesis
    by (simp add: con_at_new Constraint_clone_def Constraint_uuid_def)
qed

section \<open>Properties of the interface\<close>

text \<open>
  C10: the iterator-range constructor copies its input verbatim. For every well-formed
  range the constructor returns an instance whose \<open>variables()\<close> is the range, element by
  element: one entry per input element, in the input order, every identifier as often as
  it occurs in the range, and whatever the identifiers are.
\<close>

theorem range_constructor_copies_verbatim:
  assumes "first \<le> last'" and "last' \<le> length src"
  shows "\<exists>c g'. Constraint_range ext k src first last' g = Inr (c, g')
           \<and> Constraint_variables c = map ((!) src) [first..<last']
           \<and> length (Constraint_variables c) = last' - first
           \<and> (\<forall>i < last' - first. Constraint_variables c ! i = src ! (first + i))
           \<and> (\<forall>u. count_list (Constraint_variables c) u
                    = count_list (map ((!) src) [first..<last']) u)"
  using assms
  by (simp add: Constraint_range_valid Constraint_variables_def nth_map_upt)

theorem range_constructor_copies_verbatim_witness:
  "\<exists>c g'. Constraint_range counter_ext (plain_kind ''K'') [7, 7, 9, 7] 1 4 (0::nat) = Inr (c, g')
      \<and> Constraint_variables c = [7, 9, 7]
      \<and> length (Constraint_variables c) = 3
      \<and> count_list (Constraint_variables c) 7 = 2"
proof -
  have h1: "(1::nat) \<le> 4" by simp
  have h2: "(4::nat) \<le> length [7, 7, 9, 7 :: UUID]" by simp
  have m: "map ((!) [7, 7, 9, 7 :: UUID]) [1..<4] = [7, 9, 7]"
    by (simp add: upt_rec)
  from range_constructor_copies_verbatim [OF h1 h2, of counter_ext "plain_kind ''K''" "0::nat"]
  obtain c g' where
    "Constraint_range counter_ext (plain_kind ''K'') [7, 7, 9, 7] 1 4 (0::nat) = Inr (c, g')"
    "Constraint_variables c = map ((!) [7, 7, 9, 7 :: UUID]) [1..<4]"
    by blast
  then show ?thesis using m by auto
qed

text \<open>
  C1 (as stated, it fails): the iterator-range constructor given an empty range returns
  an instance, and the instance has no endpoints.
\<close>

theorem empty_range_accepted_counterexample:
  "Constraint_range counter_ext (plain_kind ''K'') [] 0 0 (0::nat)
   = Inr (\<lparr>kind = plain_kind ''K'', c_uuid = 0, c_variables = []\<rparr>, 1)"
  by (simp add: Constraint_range_def counter_ext_def range_loop.simps)

text \<open>
  C1 (amended): the iterator-range constructor checks nothing. For every well-formed
  range, the empty one included, it returns an instance, and the instance's
  \<open>variables()\<close> is empty exactly when the range is empty.
\<close>

theorem range_constructor_never_rejects:
  assumes "first \<le> last'" and "last' \<le> length src"
  shows "\<exists>c g'. Constraint_range ext k src first last' g = Inr (c, g')
           \<and> (Constraint_variables c = [] \<longleftrightarrow> first = last')"
  using assms
  by (auto simp: Constraint_range_valid Constraint_variables_def)

theorem range_constructor_never_rejects_witness:
  "\<exists>c g'. Constraint_range counter_ext (plain_kind ''K'') [] 0 0 (0::nat) = Inr (c, g')
      \<and> Constraint_variables c = []"
proof -
  have h1: "(0::nat) \<le> 0" by simp
  have h2: "(0::nat) \<le> length ([] :: UUID list)" by simp
  from range_constructor_never_rejects [OF h1 h2, of counter_ext "plain_kind ''K''" "0::nat"]
  show ?thesis by auto
qed

text \<open>
  C3 (as stated, it fails): the endpoint list is not fixed for good. The class has the
  implicit copy assignment, and assigning another constraint to an instance replaces the
  list that the constructor stored.
\<close>

theorem assignment_replaces_variables_counterexample:
  "exec counter_ext (NewConstraintRange (plain_kind ''K'') [3, 5] 0 2) empty_world
     = Inr \<lparr>heap = [ConObj \<lparr>kind = plain_kind ''K'', c_uuid = 0, c_variables = [3, 5]\<rparr>], rng = 1\<rparr>
   \<and> run counter_ext [NewConstraintRange (plain_kind ''K'') [9] 0 1, AssignConstraint 0 1]
        \<lparr>heap = [ConObj \<lparr>kind = plain_kind ''K'', c_uuid = 0, c_variables = [3, 5]\<rparr>], rng = 1\<rparr>
     = Inr \<lparr>heap = [ConObj \<lparr>kind = plain_kind ''K'', c_uuid = 1, c_variables = [9]\<rparr>,
                    ConObj \<lparr>kind = plain_kind ''K'', c_uuid = 1, c_variables = [9]\<rparr>], rng = 2\<rparr>
   \<and> Constraint_variables \<lparr>kind = plain_kind ''K'', c_uuid = 1, c_variables = [9]\<rparr> \<noteq> [3, 5]"
proof -
  have a: "Constraint_range counter_ext (plain_kind ''K'') [3, 5] 0 2 (0::nat)
        = Inr (\<lparr>kind = plain_kind ''K'', c_uuid = 0, c_variables = [3, 5]\<rparr>, 1)"
    using Constraint_range_valid [of 0 2 "[3, 5]" counter_ext "plain_kind ''K''" 0]
    by (simp add: counter_ext_def upt_rec)
  have b: "Constraint_range counter_ext (plain_kind ''K'') [9] 0 (Suc 0) (Suc 0)
        = Inr (\<lparr>kind = plain_kind ''K'', c_uuid = 1, c_variables = [9]\<rparr>, 2)"
    using Constraint_range_valid [of 0 "Suc 0" "[9]" counter_ext "plain_kind ''K''" "Suc 0"]
    by (simp add: counter_ext_def)
  have e: "exec counter_ext (NewConstraintRange (plain_kind ''K'') [3, 5] 0 2) empty_world
     = Inr \<lparr>heap = [ConObj \<lparr>kind = plain_kind ''K'', c_uuid = 0, c_variables = [3, 5]\<rparr>], rng = 1\<rparr>"
    by (simp add: a empty_world_def)
  have r: "run counter_ext [NewConstraintRange (plain_kind ''K'') [9] 0 1, AssignConstraint 0 1]
        \<lparr>heap = [ConObj \<lparr>kind = plain_kind ''K'', c_uuid = 0, c_variables = [3, 5]\<rparr>], rng = 1\<rparr>
     = Inr \<lparr>heap = [ConObj \<lparr>kind = plain_kind ''K'', c_uuid = 1, c_variables = [9]\<rparr>,
                    ConObj \<lparr>kind = plain_kind ''K'', c_uuid = 1, c_variables = [9]\<rparr>], rng = 2\<rparr>"
    by (simp add: b con_at_def Constraint_assign_def)
  have n: "Constraint_variables \<lparr>kind = plain_kind ''K'', c_uuid = 1, c_variables = [9]\<rparr> \<noteq> [3, 5]"
    by (simp add: Constraint_variables_def)
  from e r n show ?thesis by blast
qed

text \<open>
  C3 (amended): a constraint constructed from a non-empty endpoint list, through the
  iterator-range constructor or through the initializer-list constructor, is created, and
  its \<open>variables()\<close> is the input, identifier by identifier in the input order. The
  instance stays as it is through every sequence of steps in which it is not the target
  of a copy assignment, whatever is done with it or with other objects. A copy
  assignment to it replaces the list by the list of the assigned constraint.
\<close>

theorem variables_keep_input_order_until_assigned:
  assumes "(cm = NewConstraintRange k src first last' \<and> first < last' \<and> last' \<le> length src
              \<and> xs = map ((!) src) [first..<last'])
           \<or> (cm = NewConstraintList k xs \<and> xs \<noteq> [])"
  shows "\<exists>w1 c. exec ext cm w = Inr w1
           \<and> con_at w1 (length (heap w)) = Some c
           \<and> Constraint_variables c = xs
           \<and> (\<forall>cms w2. run ext cms w1 = Inr w2
                  \<longrightarrow> list_all (\<lambda>cm. \<not> assigns_to (length (heap w)) cm) cms
                  \<longrightarrow> con_at w2 (length (heap w)) = Some c)
           \<and> (\<forall>cms w2 b other. run ext cms w1 = Inr w2
                  \<longrightarrow> con_at w2 b = Some other
                  \<longrightarrow> (\<exists>w3 c3. exec ext (AssignConstraint (length (heap w)) b) w2 = Inr w3
                         \<and> con_at w3 (length (heap w)) = Some c3
                         \<and> Constraint_variables c3 = Constraint_variables other))"
proof -
  let ?n = "length (heap w)"
  have "\<exists>w1 c. exec ext cm w = Inr w1 \<and> con_at w1 ?n = Some c
          \<and> Constraint_variables c = xs"
    using assms
  proof
    assume a: "cm = NewConstraintRange k src first last' \<and> first < last' \<and> last' \<le> length src
                \<and> xs = map ((!) src) [first..<last']"
    then have "first \<le> last'" and "last' \<le> length src" by simp_all
    from Constraint_range_valid [OF this, of ext k "rng w"] a
    show ?thesis
      by (simp add: con_at_new Constraint_variables_def)
  next
    assume a: "cm = NewConstraintList k xs \<and> xs \<noteq> []"
    then have "xs \<noteq> []" by simp
    from Constraint_list_Inr [OF this, of ext k "rng w"] a
    show ?thesis
      by (simp add: con_at_new Constraint_variables_def)
  qed
  then obtain w1 c where e: "exec ext cm w = Inr w1"
    and c: "con_at w1 ?n = Some c" and v: "Constraint_variables c = xs"
    by blast
  have keep: "\<forall>cms w2. run ext cms w1 = Inr w2
                \<longrightarrow> list_all (\<lambda>cm. \<not> assigns_to ?n cm) cms \<longrightarrow> con_at w2 ?n = Some c"
    using run_con_at [OF _ _ c] by blast
  have assign: "\<forall>cms w2 b other. run ext cms w1 = Inr w2
                  \<longrightarrow> con_at w2 b = Some other
                  \<longrightarrow> (\<exists>w3 c3. exec ext (AssignConstraint ?n b) w2 = Inr w3
                         \<and> con_at w3 ?n = Some c3
                         \<and> Constraint_variables c3 = Constraint_variables other)"
  proof (intro allI impI)
    fix cms w2 b other
    assume r: "run ext cms w1 = Inr w2" and o: "con_at w2 b = Some other"
    from run_con_kind [OF r c] obtain c2 where c2: "con_at w2 ?n = Some c2" by blast
    from exec_AssignConstraint [OF c2 o]
    show "\<exists>w3 c3. exec ext (AssignConstraint ?n b) w2 = Inr w3
            \<and> con_at w3 ?n = Some c3
            \<and> Constraint_variables c3 = Constraint_variables other"
      by blast
  qed
  from e c v keep assign show ?thesis by blast
qed

theorem variables_keep_input_order_until_assigned_witness:
  "(\<exists>w1 w2 c. exec counter_ext (NewConstraintRange (plain_kind ''K'') [4, 3, 5, 3] 1 4) empty_world = Inr w1
      \<and> con_at w1 0 = Some c
      \<and> Constraint_variables c = [3, 5, 3]
      \<and> run counter_ext [NewVariable \<lparr>sec = 10, nsec = 0\<rparr> NIL, AssignYaw 1 7, Clone 0,
                          AssignConstraint 2 0, Call 2] w1 = Inr w2
      \<and> list_all (\<lambda>cm. \<not> assigns_to 0 cm)
           [NewVariable \<lparr>sec = 10, nsec = 0\<rparr> NIL, AssignYaw 1 7, Clone 0, AssignConstraint 2 0, Call 2]
      \<and> con_at w2 0 = Some c)
   \<and> (\<exists>w1 c. exec counter_ext (NewConstraintList (plain_kind ''K'') [3, 5, 3]) empty_world = Inr w1
          \<and> con_at w1 0 = Some c
          \<and> Constraint_variables c = [3, 5, 3])"
proof -
  let ?cms = "[NewVariable \<lparr>sec = 10, nsec = 0\<rparr> NIL, AssignYaw 1 7, Clone 0, AssignConstraint 2 0, Call 2]"
  have m: "map ((!) [4, 3, 5, 3 :: UUID]) [1..<4] = [3, 5, 3]"
    by (simp add: upt_rec)
  have h: "(NewConstraintRange (plain_kind ''K'') [4, 3, 5, 3] 1 4
              = NewConstraintRange (plain_kind ''K'') [4, 3, 5, 3] 1 4
            \<and> (1::nat) < 4 \<and> (4::nat) \<le> length [4, 3, 5, 3 :: UUID]
            \<and> [3, 5, 3] = map ((!) [4, 3, 5, 3 :: UUID]) [1..<4])
           \<or> (NewConstraintRange (plain_kind ''K'') [4, 3, 5, 3] 1 4
                 = NewConstraintList (plain_kind ''K'') [3, 5, 3] \<and> [3, 5, 3 :: UUID] \<noteq> [])"
    using m by simp
  have z: "length (heap empty_world) = 0" by (simp add: empty_world_def)
  from variables_keep_input_order_until_assigned [OF h, of counter_ext empty_world]
  obtain w1 c where e: "exec counter_ext (NewConstraintRange (plain_kind ''K'') [4, 3, 5, 3] 1 4) empty_world = Inr w1"
    and c: "con_at w1 0 = Some c"
    and v: "Constraint_variables c = [3, 5, 3]"
    and later: "\<And>cms w2. run counter_ext cms w1 = Inr w2 \<Longrightarrow>
             list_all (\<lambda>cm. \<not> assigns_to 0 cm) cms \<Longrightarrow> con_at w2 0 = Some c"
    unfolding z by blast
  have w1: "w1 = \<lparr>heap = [ConObj \<lparr>kind = plain_kind ''K'', c_uuid = 0, c_variables = [3, 5, 3]\<rparr>], rng = 1\<rparr>"
    using e Constraint_range_valid [of 1 4 "[4, 3, 5, 3]" counter_ext "plain_kind ''K''" 0] m
    by (simp add: empty_world_def counter_ext_def)
  have "\<exists>w2. run counter_ext ?cms w1 = Inr w2"
    unfolding w1 by (simp add: var_at_def con_at_def)
  then obtain w2 where r: "run counter_ext ?cms w1 = Inr w2"
    by blast
  have l: "list_all (\<lambda>cm. \<not> assigns_to 0 cm) ?cms"
    by simp
  from later [OF r l] e c v r l
  have range: "\<exists>w1 w2 c. exec counter_ext (NewConstraintRange (plain_kind ''K'') [4, 3, 5, 3] 1 4) empty_world = Inr w1
      \<and> con_at w1 0 = Some c
      \<and> Constraint_variables c = [3, 5, 3]
      \<and> run counter_ext ?cms w1 = Inr w2
      \<and> list_all (\<lambda>cm. \<not> assigns_to 0 cm) ?cms
      \<and> con_at w2 0 = Some c"
    by blast
  have h': "(NewConstraintList (plain_kind ''K'') [3, 5, 3]
               = NewConstraintRange (plain_kind ''K'') [] 0 0
             \<and> (0::nat) < 0 \<and> (0::nat) \<le> length ([] :: UUID list)
             \<and> [3, 5, 3] = map ((!) ([] :: UUID list)) [0..<0])
            \<or> (NewConstraintList (plain_kind ''K'') [3, 5, 3]
                  = NewConstraintList (plain_kind ''K'') [3, 5, 3] \<and> [3, 5, 3 :: UUID] \<noteq> [])"
    by simp
  from variables_keep_input_order_until_assigned [OF h', of counter_ext empty_world]
  have "\<exists>w1 c. exec counter_ext (NewConstraintList (plain_kind ''K'') [3, 5, 3]) empty_world = Inr w1
          \<and> con_at w1 0 = Some c
          \<and> Constraint_variables c = [3, 5, 3]"
    unfolding z by blast
  with range show ?thesis by blast
qed

text \<open>
  C5 (as stated, it fails): the identifier is not immutable after construction. The
  class has the implicit copy assignment, and assigning another constraint to an instance
  replaces the identifier that the constructor drew, so that \<open>uuid()\<close> returns a
  different value afterwards.
\<close>

theorem assignment_replaces_uuid_counterexample:
  "con_at \<lparr>heap = [ConObj \<lparr>kind = plain_kind ''K'', c_uuid = 0, c_variables = [3, 5]\<rparr>,
                   ConObj \<lparr>kind = plain_kind ''L'', c_uuid = 1, c_variables = [9]\<rparr>], rng = 2::nat\<rparr> 0
     = Some \<lparr>kind = plain_kind ''K'', c_uuid = 0, c_variables = [3, 5]\<rparr>
   \<and> Constraint_uuid \<lparr>kind = plain_kind ''K'', c_uuid = 0, c_variables = [3, 5]\<rparr> = 0
   \<and> exec counter_ext (AssignConstraint 0 1)
        \<lparr>heap = [ConObj \<lparr>kind = plain_kind ''K'', c_uuid = 0, c_variables = [3, 5]\<rparr>,
                 ConObj \<lparr>kind = plain_kind ''L'', c_uuid = 1, c_variables = [9]\<rparr>], rng = 2\<rparr>
     = Inr \<lparr>heap = [ConObj \<lparr>kind = plain_kind ''K'', c_uuid = 1, c_variables = [9]\<rparr>,
                    ConObj \<lparr>kind = plain_kind ''L'', c_uuid = 1, c_variables = [9]\<rparr>], rng = 2\<rparr>
   \<and> Constraint_uuid \<lparr>kind = plain_kind ''K'', c_uuid = 1, c_variables = [9]\<rparr> = 1"
  by (simp add: con_at_def Constraint_assign_def Constraint_uuid_def)

text \<open>
  C5 (amended): a constraint built by either constructor has the random source's next
  output as its identifier, and the construction advances the source by that one draw.
  \<open>uuid()\<close> returns this value for as long as the instance is not the target of a copy
  assignment: the instance stays as it is through every sequence of steps without such an
  assignment, whatever is done with it or with other objects. A copy assignment to it
  replaces the identifier by the identifier of the assigned constraint, and a clone takes
  over the identifier of the original; neither draws from the random source.
\<close>

theorem constraint_uuid_drawn_once_fixed_until_assigned:
  assumes "cm = NewConstraintRange k src first last' \<or> cm = NewConstraintList k xs"
      and "exec ext cm w = Inr w1"
      and "run ext cms w1 = Inr w2"
      and "list_all (\<lambda>cm. \<not> assigns_to (length (heap w)) cm) cms"
  shows "\<exists>c. con_at w1 (length (heap w)) = Some c
           \<and> Constraint_uuid c = fst (generate ext (rng w))
           \<and> rng w1 = snd (generate ext (rng w))
           \<and> con_at w2 (length (heap w)) = Some c
           \<and> (\<forall>b other. con_at w2 b = Some other
                  \<longrightarrow> (\<exists>w3 c3. exec ext (AssignConstraint (length (heap w)) b) w2 = Inr w3
                         \<and> con_at w3 (length (heap w)) = Some c3
                         \<and> Constraint_uuid c3 = Constraint_uuid other
                         \<and> rng w3 = rng w2))
           \<and> (\<exists>w3 c3. exec ext (Clone (length (heap w))) w2 = Inr w3
                  \<and> con_at w3 (length (heap w2)) = Some c3
                  \<and> Constraint_uuid c3 = Constraint_uuid c
                  \<and> rng w3 = rng w2)"
proof -
  let ?n = "length (heap w)"
  have "\<exists>c. con_at w1 ?n = Some c \<and> Constraint_uuid c = fst (generate ext (rng w))
          \<and> rng w1 = snd (generate ext (rng w))"
    using assms(1)
  proof
    assume "cm = NewConstraintRange k src first last'"
    with assms(2) have "exec ext (NewConstraintRange k src first last') w = Inr w1" by simp
    from exec_range_Inr [OF this] obtain c where
      r: "Constraint_range ext k src first last' (rng w) = Inr (c, rng w1)"
      and c: "con_at w1 ?n = Some c"
      by blast
    from Constraint_range_Inr(3,4) [OF r] c show ?thesis
      by (simp add: Constraint_uuid_def)
  next
    assume "cm = NewConstraintList k xs"
    with assms(2) have x: "exec ext (NewConstraintList k xs) w = Inr w1" by simp
    then have "xs \<noteq> []"
      by (auto simp: Constraint_list_def)
    from Constraint_list_Inr [OF this, of ext k "rng w"] x show ?thesis
      by (auto simp: con_at_new Constraint_uuid_def)
  qed
  then obtain c where c: "con_at w1 ?n = Some c"
    and u: "Constraint_uuid c = fst (generate ext (rng w))"
    and g: "rng w1 = snd (generate ext (rng w))"
    by blast
  from run_con_at [OF assms(3) assms(4) c] have c2: "con_at w2 ?n = Some c" .
  have assign: "\<forall>b other. con_at w2 b = Some other
                  \<longrightarrow> (\<exists>w3 c3. exec ext (AssignConstraint ?n b) w2 = Inr w3
                         \<and> con_at w3 ?n = Some c3
                         \<and> Constraint_uuid c3 = Constraint_uuid other
                         \<and> rng w3 = rng w2)"
    using exec_AssignConstraint [OF c2] by blast
  have "\<exists>w3 c3. exec ext (Clone ?n) w2 = Inr w3
          \<and> con_at w3 (length (heap w2)) = Some c3
          \<and> Constraint_uuid c3 = Constraint_uuid c
          \<and> rng w3 = rng w2"
    using exec_Clone_con [OF c2, of ext] by blast
  with c u g c2 assign show ?thesis by blast
qed

theorem constraint_uuid_drawn_once_fixed_until_assigned_witness:
  "exec counter_ext (NewConstraintRange (plain_kind ''K'') [3, 5] 0 2) empty_world
     = Inr \<lparr>heap = [ConObj \<lparr>kind = plain_kind ''K'', c_uuid = 0, c_variables = [3, 5]\<rparr>], rng = 1\<rparr>
   \<and> run counter_ext [Call 0, Clone 0, NewConstraintRange (plain_kind ''K'') [3, 5] 0 2,
                       AssignConstraint 1 2, Call 0]
        \<lparr>heap = [ConObj \<lparr>kind = plain_kind ''K'', c_uuid = 0, c_variables = [3, 5]\<rparr>], rng = 1\<rparr>
     = Inr \<lparr>heap = [ConObj \<lparr>kind = plain_kind ''K'', c_uuid = 0, c_variables = [3, 5]\<rparr>,
                    ConObj \<lparr>kind = plain_kind ''K'', c_uuid = 1, c_variables = [3, 5]\<rparr>,
                    ConObj \<lparr>kind = plain_kind ''K'', c_uuid = 1, c_variables = [3, 5]\<rparr>], rng = 2\<rparr>
   \<and> list_all (\<lambda>cm. \<not> assigns_to 0 cm)
        [Call 0, Clone 0, NewConstraintRange (plain_kind ''K'') [3, 5] 0 2, AssignConstraint 1 2, Call 0]
   \<and> (\<exists>c. con_at \<lparr>heap = [ConObj \<lparr>kind = plain_kind ''K'', c_uuid = 0, c_variables = [3, 5]\<rparr>,
                            ConObj \<lparr>kind = plain_kind ''K'', c_uuid = 1, c_variables = [3, 5]\<rparr>,
                            ConObj \<lparr>kind = plain_kind ''K'', c_uuid = 1, c_variables = [3, 5]\<rparr>],
                    rng = 2::nat\<rparr> 0 = Some c
          \<and> Constraint_uuid c = 0)"
proof -
  let ?cms = "[Call 0, Clone 0, NewConstraintRange (plain_kind ''K'') [3, 5] 0 2, AssignConstraint 1 2, Call 0]"
  let ?w1 = "\<lparr>heap = [ConObj \<lparr>kind = plain_kind ''K'', c_uuid = 0, c_variables = [3, 5]\<rparr>], rng = 1::nat\<rparr>"
  let ?w2 = "\<lparr>heap = [ConObj \<lparr>kind = plain_kind ''K'', c_uuid = 0, c_variables = [3, 5]\<rparr>,
                    ConObj \<lparr>kind = plain_kind ''K'', c_uuid = 1, c_variables = [3, 5]\<rparr>,
                    ConObj \<lparr>kind = plain_kind ''K'', c_uuid = 1, c_variables = [3, 5]\<rparr>], rng = 2::nat\<rparr>"
  have m: "map ((!) [3, 5 :: UUID]) [0..<2] = [3, 5]"
    by (simp add: upt_rec)
  have c: "\<And>g. Constraint_range counter_ext (plain_kind ''K'') [3, 5] 0 2 g
        = Inr (\<lparr>kind = plain_kind ''K'', c_uuid = word_of_nat g, c_variables = [3, 5]\<rparr>, Suc g)"
    using Constraint_range_valid [of 0 2 "[3, 5]" counter_ext "plain_kind ''K''"] m
    by (simp add: counter_ext_def)
  have e: "exec counter_ext (NewConstraintRange (plain_kind ''K'') [3, 5] 0 2) empty_world = Inr ?w1"
    by (simp add: c empty_world_def)
  have r: "run counter_ext ?cms ?w1 = Inr ?w2"
    by (simp add: c Constraint_clone_def Constraint_assign_def con_at_def)
  have l: "list_all (\<lambda>cm. \<not> assigns_to (length (heap empty_world)) cm) ?cms"
    by (simp add: empty_world_def)
  have l0: "list_all (\<lambda>cm. \<not> assigns_to 0 cm) ?cms"
    by simp
  have d: "NewConstraintRange (plain_kind ''K'') [3, 5] 0 2 = NewConstraintRange (plain_kind ''K'') [3, 5] 0 2
           \<or> NewConstraintRange (plain_kind ''K'') [3, 5] 0 2 = NewConstraintList (plain_kind ''K'') []"
    by simp
  have z1: "length (heap empty_world) = 0"
    by (simp add: empty_world_def)
  have z2: "fst (generate counter_ext (rng empty_world)) = 0"
    by (simp add: empty_world_def counter_ext_def)
  from constraint_uuid_drawn_once_fixed_until_assigned [OF d e r l]
  have "\<exists>c. con_at ?w2 0 = Some c \<and> Constraint_uuid c = 0"
    unfolding z1 z2 by blast
  with e r l0 show ?thesis by blast
qed

text \<open>
  C4: the identifier of a constraint is the output of the random generator at the
  moment of construction and does not depend on the endpoint list. Two constructions of
  the same kind from the same endpoints, one after the other or from unrelated generator
  states, therefore get different identifiers exactly when the generator's two outputs
  differ, which is the non-collision case.
\<close>

theorem equal_endpoints_distinct_uuids:
  assumes "Constraint_range ext k src first last' g = Inr (c1, g1)"
      and "Constraint_range ext k src first last' h = Inr (c2, h1)"
  shows "Constraint_variables c1 = Constraint_variables c2
         \<and> kind c1 = kind c2
         \<and> Constraint_uuid c1 = fst (generate ext g)
         \<and> Constraint_uuid c2 = fst (generate ext h)
         \<and> g1 = snd (generate ext g)
         \<and> (fst (generate ext g) \<noteq> fst (generate ext h)
              \<longrightarrow> Constraint_uuid c1 \<noteq> Constraint_uuid c2)
         \<and> (\<forall>src' first' last'' c3 g3.
               Constraint_range ext k src' first' last'' g = Inr (c3, g3)
               \<longrightarrow> Constraint_uuid c3 = Constraint_uuid c1)"
  using Constraint_range_Inr [OF assms(1)] Constraint_range_Inr [OF assms(2)]
  by (auto simp: Constraint_uuid_def Constraint_variables_def dest: Constraint_range_Inr(3))

theorem equal_endpoints_distinct_uuids_witness:
  "Constraint_range counter_ext (plain_kind ''K'') [3, 5] 0 2 (0::nat)
     = Inr (\<lparr>kind = plain_kind ''K'', c_uuid = 0, c_variables = [3, 5]\<rparr>, 1)
   \<and> Constraint_range counter_ext (plain_kind ''K'') [3, 5] 0 2 (1::nat)
     = Inr (\<lparr>kind = plain_kind ''K'', c_uuid = 1, c_variables = [3, 5]\<rparr>, 2)
   \<and> fst (generate counter_ext (0::nat)) \<noteq> fst (generate counter_ext 1)
   \<and> Constraint_uuid \<lparr>kind = plain_kind ''K'', c_uuid = 0, c_variables = [3, 5]\<rparr>
       \<noteq> Constraint_uuid \<lparr>kind = plain_kind ''K'', c_uuid = 1, c_variables = [3, 5]\<rparr>"
proof -
  have m: "map ((!) [3, 5 :: UUID]) [0..<2] = [3, 5]"
    by (simp add: upt_rec)
  have c: "\<And>g. Constraint_range counter_ext (plain_kind ''K'') [3, 5] 0 2 g
        = Inr (\<lparr>kind = plain_kind ''K'', c_uuid = word_of_nat g, c_variables = [3, 5]\<rparr>, Suc g)"
    using Constraint_range_valid [of 0 2 "[3, 5]" counter_ext "plain_kind ''K''"] m
    by (simp add: counter_ext_def)
  have a: "Constraint_range counter_ext (plain_kind ''K'') [3, 5] 0 2 (0::nat)
     = Inr (\<lparr>kind = plain_kind ''K'', c_uuid = 0, c_variables = [3, 5]\<rparr>, 1)"
    by (simp add: c)
  have b: "Constraint_range counter_ext (plain_kind ''K'') [3, 5] 0 2 (1::nat)
     = Inr (\<lparr>kind = plain_kind ''K'', c_uuid = 1, c_variables = [3, 5]\<rparr>, 2)"
    by (simp add: c)
  have d: "fst (generate counter_ext (0::nat)) \<noteq> fst (generate counter_ext 1)"
    by (simp add: counter_ext_def)
  from equal_endpoints_distinct_uuids [OF a b] a b d
  show ?thesis by blast
qed

text \<open>
  C8: a constraint whose kind does not override the loss-function hook returns the null
  pointer from \<open>lossFunction()\<close>, whatever its endpoints and its identifier are; in
  particular every instance that the constructor builds for such a kind does.
\<close>

theorem default_lossFunction_is_null:
  assumes "lossFunction_override k = None"
  shows "(\<forall>c. kind c = k \<longrightarrow> Constraint_lossFunction c = None)
         \<and> (\<forall>src first last' g c g'.
               Constraint_range ext k src first last' g = Inr (c, g')
               \<longrightarrow> Constraint_lossFunction c = None)"
  using assms
  by (auto simp: Constraint_lossFunction_def dest: Constraint_range_Inr(2))

theorem default_lossFunction_is_null_witness:
  "lossFunction_override (plain_kind ''K'') = None
   \<and> kind \<lparr>kind = plain_kind ''K'', c_uuid = 9, c_variables = [3, 5]\<rparr> = plain_kind ''K''
   \<and> Constraint_lossFunction \<lparr>kind = plain_kind ''K'', c_uuid = 9, c_variables = [3, 5]\<rparr> = None"
proof -
  have h: "lossFunction_override (plain_kind ''K'') = None"
    by (simp add: plain_kind_def)
  from default_lossFunction_is_null [OF h, of counter_ext] h
  show ?thesis by simp
qed

text \<open>
  C6 (as stated, it fails): \<open>type()\<close> is virtual, and nothing keeps two different
  classes from returning the same string from their overrides.
\<close>

theorem distinct_kinds_equal_type_counterexample:
  "typeid_name (renamed_kind ''A'' ''T'') \<noteq> typeid_name (renamed_kind ''B'' ''T'')
   \<and> Constraint_type counter_ext \<lparr>kind = renamed_kind ''A'' ''T'', c_uuid = 0, c_variables = [3]\<rparr>
     = Constraint_type counter_ext \<lparr>kind = renamed_kind ''B'' ''T'', c_uuid = 1, c_variables = [3]\<rparr>"
  by (simp add: renamed_kind_def Constraint_type_def)

text \<open>
  C6 (amended): \<open>type()\<close> depends on the concrete kind only. It returns the same string
  for any two instances of one kind, and an instance keeps its string whatever is done
  with this or any other object. For two kinds that inherit the base-class body the
  strings differ exactly when the demangled \<open>typeid\<close> names of the two classes differ.
\<close>

theorem type_depends_on_kind_only:
  "(kind c1 = kind c2 \<longrightarrow> Constraint_type ext c1 = Constraint_type ext c2)
   \<and> (con_at w a = Some c \<longrightarrow> run ext cms w = Inr w' \<longrightarrow>
        (\<exists>c'. con_at w' a = Some c' \<and> Constraint_type ext c' = Constraint_type ext c))
   \<and> (type_override (kind c1) = None \<longrightarrow> type_override (kind c2) = None \<longrightarrow>
        (Constraint_type ext c1 \<noteq> Constraint_type ext c2
         \<longleftrightarrow> demangle ext (typeid_name (kind c1)) \<noteq> demangle ext (typeid_name (kind c2))))"
proof (intro conjI impI)
  assume "kind c1 = kind c2"
  then show "Constraint_type ext c1 = Constraint_type ext c2"
    by (simp add: Constraint_type_def split: option.splits)
next
  assume "con_at w a = Some c" and "run ext cms w = Inr w'"
  from run_con_kind [OF this(2) this(1)]
  show "\<exists>c'. con_at w' a = Some c' \<and> Constraint_type ext c' = Constraint_type ext c"
    by (auto simp: Constraint_type_def split: option.splits)
next
  assume "type_override (kind c1) = None" and "type_override (kind c2) = None"
  then show "Constraint_type ext c1 \<noteq> Constraint_type ext c2
         \<longleftrightarrow> demangle ext (typeid_name (kind c1)) \<noteq> demangle ext (typeid_name (kind c2))"
    by (simp add: Constraint_type_def)
qed

theorem type_depends_on_kind_only_witness:
  "kind \<lparr>kind = plain_kind ''A'', c_uuid = 0, c_variables = [3]\<rparr>
     = kind \<lparr>kind = plain_kind ''A'', c_uuid = 1, c_variables = [5, 3]\<rparr>
   \<and> Constraint_type counter_ext \<lparr>kind = plain_kind ''A'', c_uuid = 0, c_variables = [3]\<rparr>
     = Constraint_type counter_ext \<lparr>kind = plain_kind ''A'', c_uuid = 1, c_variables = [5, 3]\<rparr>
   \<and> con_at \<lparr>heap = [ConObj \<lparr>kind = plain_kind ''A'', c_uuid = 0, c_variables = [3]\<rparr>], rng = 1::nat\<rparr> 0
     = Some \<lparr>kind = plain_kind ''A'', c_uuid = 0, c_variables = [3]\<rparr>
   \<and> run counter_ext [Call 0, Clone 0]
        \<lparr>heap = [ConObj \<lparr>kind = plain_kind ''A'', c_uuid = 0, c_variables = [3]\<rparr>], rng = 1::nat\<rparr>
     = Inr \<lparr>heap = [ConObj \<lparr>kind = plain_kind ''A'', c_uuid = 0, c_variables = [3]\<rparr>,
                    ConObj \<lparr>kind = plain_kind ''A'', c_uuid = 0, c_variables = [3]\<rparr>], rng = 1\<rparr>
   \<and> type_override (plain_kind ''A'') = None
   \<and> type_override (plain_kind ''B'') = None
   \<and> Constraint_type counter_ext \<lparr>kind = plain_kind ''A'', c_uuid = 0, c_variables = [3]\<rparr>
     \<noteq> Constraint_type counter_ext \<lparr>kind = plain_kind ''B'', c_uuid = 0, c_variables = [3]\<rparr>"
  using type_depends_on_kind_only
    [of "\<lparr>kind = plain_kind ''A'', c_uuid = 0, c_variables = [3]\<rparr>"
        "\<lparr>kind = plain_kind ''B'', c_uuid = 0, c_variables = [3]\<rparr>"
        counter_ext
        "\<lparr>heap = [ConObj \<lparr>kind = plain_kind ''A'', c_uuid = 0, c_variables = [3]\<rparr>], rng = 1::nat\<rparr>"
        0
        "\<lparr>kind = plain_kind ''A'', c_uuid = 0, c_variables = [3]\<rparr>"
        "[Call 0, Clone 0]"]
  by (simp add: plain_kind_def counter_ext_def Constraint_type_def con_at_def Constraint_clone_def)

text \<open>
  C7: the identifier of a stamped variable is the deterministic generator applied to
  the type discriminator, the timestamp and the device id. The object keeps it for its
  whole life, whatever is done with this or any other object, and an assignment through
  \<open>yaw()\<close> stores the scalar and leaves \<open>uuid()\<close> as it was.
\<close>

theorem variable_uuid_ignores_scalars:
  assumes "exec ext (NewVariable stamp device_id) w = Inr w1"
      and "run ext cms w1 = Inr w2"
  shows "\<exists>v v2. var_at w1 (length (heap w)) = Some v
           \<and> Variable_uuid v
               = generate_named ext AccelerationAngular2DStamped_type stamp device_id
           \<and> var_at w2 (length (heap w)) = Some v2
           \<and> Variable_uuid v2 = Variable_uuid v
           \<and> (\<forall>x. \<exists>w3 v3. exec ext (AssignYaw (length (heap w)) x) w2 = Inr w3
                  \<and> var_at w3 (length (heap w)) = Some v3
                  \<and> yaw v3 = x
                  \<and> Variable_uuid v3 = Variable_uuid v)"
proof -
  let ?a = "length (heap w)"
  let ?v = "AccelerationAngular2DStamped_new ext stamp device_id"
  have v: "var_at w1 ?a = Some ?v"
    using assms(1) by (rule exec_NewVariable)
  have u: "Variable_uuid ?v = generate_named ext AccelerationAngular2DStamped_type stamp device_id"
    by (simp add: Variable_uuid_def AccelerationAngular2DStamped_new_def)
  from run_var_at [OF assms(2) v] obtain v2 where
    v2: "var_at w2 ?a = Some v2" and i: "same_identity ?v v2" by blast
  have u2: "Variable_uuid v2 = Variable_uuid ?v"
    using i by (simp add: same_identity_def Variable_uuid_def)
  have d2: "v_data v2 \<noteq> []"
    using i by (rule same_identity_data) (simp add: AccelerationAngular2DStamped_new_def)
  have "\<forall>x. \<exists>w3 v3. exec ext (AssignYaw ?a x) w2 = Inr w3
           \<and> var_at w3 ?a = Some v3 \<and> yaw v3 = x \<and> Variable_uuid v3 = Variable_uuid ?v"
  proof
    fix x
    have "Variable_uuid (yaw_assign x v2) = Variable_uuid ?v"
      using u2 by (simp add: Variable_uuid_def yaw_assign_def)
    with exec_AssignYaw(1) [OF v2, of ext x] exec_AssignYaw(2) [OF v2, of x] yaw_yaw_assign [OF d2, of x]
    show "\<exists>w3 v3. exec ext (AssignYaw ?a x) w2 = Inr w3
           \<and> var_at w3 ?a = Some v3 \<and> yaw v3 = x \<and> Variable_uuid v3 = Variable_uuid ?v"
      by blast
  qed
  with v u v2 u2 show ?thesis by blast
qed

theorem variable_uuid_ignores_scalars_witness:
  "\<exists>w1 w2 v2. exec counter_ext (NewVariable \<lparr>sec = 10, nsec = 0\<rparr> NIL) empty_world = Inr w1
      \<and> run counter_ext [AssignYaw 0 7, Call 0, AssignYaw 0 8] w1 = Inr w2
      \<and> var_at w2 0 = Some v2
      \<and> yaw v2 = 8
      \<and> Variable_uuid v2
          = generate_named counter_ext AccelerationAngular2DStamped_type \<lparr>sec = 10, nsec = 0\<rparr> NIL"
proof -
  let ?n = "AccelerationAngular2DStamped_new counter_ext \<lparr>sec = 10, nsec = 0\<rparr> NIL"
  have e: "exec counter_ext (NewVariable \<lparr>sec = 10, nsec = 0\<rparr> NIL) empty_world
           = Inr \<lparr>heap = [VarObj ?n], rng = 0\<rparr>"
    by (simp add: empty_world_def)
  have r: "run counter_ext [AssignYaw 0 7, Call 0, AssignYaw 0 8] \<lparr>heap = [VarObj ?n], rng = 0\<rparr>
           = Inr \<lparr>heap = [VarObj (yaw_assign 8 (yaw_assign 7 ?n))], rng = 0\<rparr>"
    by (simp add: var_at_def)
  have y: "yaw (yaw_assign 8 (yaw_assign 7 ?n)) = 8"
    by (simp add: yaw_def yaw_assign_def YAW_def AccelerationAngular2DStamped_new_def)
  have z: "length (heap empty_world) = 0"
    by (simp add: empty_world_def)
  from variable_uuid_ignores_scalars [OF e r]
  obtain v v2 where "var_at \<lparr>heap = [VarObj (yaw_assign 8 (yaw_assign 7 ?n))], rng = 0::nat\<rparr> 0 = Some v2"
    and "Variable_uuid v2 = Variable_uuid v"
    and "Variable_uuid v = generate_named counter_ext AccelerationAngular2DStamped_type \<lparr>sec = 10, nsec = 0\<rparr> NIL"
    unfolding z by blast
  moreover from this(1) have "v2 = yaw_assign 8 (yaw_assign 7 ?n)"
    by (simp add: var_at_def)
  ultimately show ?thesis using e r y by auto
qed

text \<open>
  C2: two stamped variables constructed with the same timestamp and the same device id,
  with anything happening in between, are two objects with the same identifier. Each has
  its own scalars: an assignment through \<open>yaw()\<close> of one is stored in that one, and the
  other stays exactly as it was through any sequence of steps that does not assign
  through its own \<open>yaw()\<close>.
\<close>

theorem equal_stamp_equal_uuid_separate_scalars:
  assumes "exec ext (NewVariable stamp device_id) w = Inr w1"
      and "run ext cms w1 = Inr w2"
      and "exec ext (NewVariable stamp device_id) w2 = Inr w3"
  shows "\<exists>v1 v2. length (heap w) \<noteq> length (heap w2)
           \<and> var_at w3 (length (heap w)) = Some v1
           \<and> var_at w3 (length (heap w2)) = Some v2
           \<and> Variable_uuid v1 = Variable_uuid v2
           \<and> (\<forall>x. \<exists>w4 v1'. exec ext (AssignYaw (length (heap w)) x) w3 = Inr w4
                  \<and> var_at w4 (length (heap w)) = Some v1' \<and> yaw v1' = x
                  \<and> var_at w4 (length (heap w2)) = Some v2)
           \<and> (\<forall>x. \<exists>w4 v2'. exec ext (AssignYaw (length (heap w2)) x) w3 = Inr w4
                  \<and> var_at w4 (length (heap w2)) = Some v2' \<and> yaw v2' = x
                  \<and> var_at w4 (length (heap w)) = Some v1)
           \<and> (\<forall>cms' w4. run ext cms' w3 = Inr w4
                  \<longrightarrow> list_all (\<lambda>cm. \<not> writes_to (length (heap w2)) cm) cms'
                  \<longrightarrow> var_at w4 (length (heap w2)) = Some v2)
           \<and> (\<forall>cms' w4. run ext cms' w3 = Inr w4
                  \<longrightarrow> list_all (\<lambda>cm. \<not> writes_to (length (heap w)) cm) cms'
                  \<longrightarrow> var_at w4 (length (heap w)) = Some v1)"
proof -
  let ?a = "length (heap w)" and ?b = "length (heap w2)"
  let ?n = "AccelerationAngular2DStamped_new ext stamp device_id"
  have "var_at w1 ?a = Some ?n"
    using assms(1) by (rule exec_NewVariable)
  from run_var_at [OF assms(2) this] obtain u where
    u: "var_at w2 ?a = Some u" and i: "same_identity ?n u" by blast
  from exec_var_at [OF assms(3) u] obtain v1 where
    v1: "var_at w3 ?a = Some v1" and i1: "same_identity u v1" by blast
  have v2: "var_at w3 ?b = Some ?n"
    using assms(3) by (rule exec_NewVariable)
  have ne: "?a \<noteq> ?b"
    using var_at_in_heap [OF u] by simp
  have id: "Variable_uuid v1 = Variable_uuid ?n"
    using i i1 by (simp add: same_identity_def Variable_uuid_def)
  have d1: "v_data v1 \<noteq> []"
    using i1 same_identity_data [OF i] by (auto simp: same_identity_def AccelerationAngular2DStamped_new_def)
  have dn: "v_data ?n \<noteq> []"
    by (simp add: AccelerationAngular2DStamped_new_def)
  have A: "\<forall>x. \<exists>w4 v1'. exec ext (AssignYaw ?a x) w3 = Inr w4
             \<and> var_at w4 ?a = Some v1' \<and> yaw v1' = x \<and> var_at w4 ?b = Some ?n"
  proof
    fix x
    from exec_AssignYaw(1) [OF v1, of ext x] exec_AssignYaw(2) [OF v1, of x] yaw_yaw_assign [OF d1, of x]
    show "\<exists>w4 v1'. exec ext (AssignYaw ?a x) w3 = Inr w4
             \<and> var_at w4 ?a = Some v1' \<and> yaw v1' = x \<and> var_at w4 ?b = Some ?n"
      using v2 ne by (simp add: var_at_update)
  qed
  have B: "\<forall>x. \<exists>w4 v2'. exec ext (AssignYaw ?b x) w3 = Inr w4
             \<and> var_at w4 ?b = Some v2' \<and> yaw v2' = x \<and> var_at w4 ?a = Some v1"
  proof
    fix x
    from exec_AssignYaw(1) [OF v2, of ext x] exec_AssignYaw(2) [OF v2, of x] yaw_yaw_assign [OF dn, of x]
    show "\<exists>w4 v2'. exec ext (AssignYaw ?b x) w3 = Inr w4
             \<and> var_at w4 ?b = Some v2' \<and> yaw v2' = x \<and> var_at w4 ?a = Some v1"
      using v1 ne by (simp add: var_at_update)
  qed
  have C: "\<forall>cms' w4. run ext cms' w3 = Inr w4
             \<longrightarrow> list_all (\<lambda>cm. \<not> writes_to ?b cm) cms' \<longrightarrow> var_at w4 ?b = Some ?n"
    using run_var_untouched [OF _ _ v2] by blast
  have D: "\<forall>cms' w4. run ext cms' w3 = Inr w4
             \<longrightarrow> list_all (\<lambda>cm. \<not> writes_to ?a cm) cms' \<longrightarrow> var_at w4 ?a = Some v1"
    using run_var_untouched [OF _ _ v1] by blast
  from ne v1 v2 id A B C D show ?thesis by blast
qed

theorem equal_stamp_equal_uuid_separate_scalars_witness:
  "\<exists>w1 w2 w3 w4 v1 v2.
      exec counter_ext (NewVariable \<lparr>sec = 10, nsec = 0\<rparr> NIL) empty_world = Inr w1
      \<and> run counter_ext [Call 0] w1 = Inr w2
      \<and> exec counter_ext (NewVariable \<lparr>sec = 10, nsec = 0\<rparr> NIL) w2 = Inr w3
      \<and> run counter_ext [AssignYaw 0 3, Clone 0, AssignYaw 0 4] w3 = Inr w4
      \<and> list_all (\<lambda>cm. \<not> writes_to 1 cm) [AssignYaw 0 3, Clone 0, AssignYaw 0 4]
      \<and> var_at w4 0 = Some v1 \<and> var_at w4 1 = Some v2
      \<and> yaw v1 = 4 \<and> yaw v2 = 0
      \<and> Variable_uuid v1 = Variable_uuid v2"
proof -
  let ?n = "AccelerationAngular2DStamped_new counter_ext \<lparr>sec = 10, nsec = 0\<rparr> NIL"
  let ?w1 = "\<lparr>heap = [VarObj ?n], rng = 0::nat\<rparr>"
  let ?w3 = "\<lparr>heap = [VarObj ?n, VarObj ?n], rng = 0::nat\<rparr>"
  let ?m = "yaw_assign 4 (yaw_assign 3 ?n)"
  let ?w4 = "\<lparr>heap = [VarObj ?m, VarObj ?n, VarObj (Variable_clone (yaw_assign 3 ?n))], rng = 0::nat\<rparr>"
  have e1: "exec counter_ext (NewVariable \<lparr>sec = 10, nsec = 0\<rparr> NIL) empty_world = Inr ?w1"
    by (simp add: empty_world_def)
  have r1: "run counter_ext [Call 0] ?w1 = Inr ?w1"
    by simp
  have e2: "exec counter_ext (NewVariable \<lparr>sec = 10, nsec = 0\<rparr> NIL) ?w1 = Inr ?w3"
    by simp
  have r2: "run counter_ext [AssignYaw 0 3, Clone 0, AssignYaw 0 4] ?w3 = Inr ?w4"
    by (simp add: var_at_def)
  have l: "list_all (\<lambda>cm. \<not> writes_to 1 cm) [AssignYaw 0 3, Clone 0, AssignYaw 0 4]"
    by simp
  have z: "length (heap empty_world) = 0" "length (heap ?w1) = 1"
    by (simp_all add: empty_world_def)
  from equal_stamp_equal_uuid_separate_scalars [OF e1 r1 e2]
  obtain v1 v2 where a: "var_at ?w3 0 = Some v1" and b: "var_at ?w3 1 = Some v2"
    and u: "Variable_uuid v1 = Variable_uuid v2"
    and keep: "\<And>cms' w4. run counter_ext cms' ?w3 = Inr w4
                 \<Longrightarrow> list_all (\<lambda>cm. \<not> writes_to 1 cm) cms' \<Longrightarrow> var_at w4 1 = Some v2"
    unfolding z by blast
  from a b have v: "v1 = ?n" "v2 = ?n"
    by (simp_all add: var_at_def)
  from keep [OF r2 l] v have k: "var_at ?w4 1 = Some ?n" by simp
  have m: "var_at ?w4 0 = Some ?m"
    by (simp add: var_at_def)
  have y: "yaw ?m = 4" "yaw ?n = 0"
    by (simp_all add: yaw_def yaw_assign_def YAW_def AccelerationAngular2DStamped_new_def)
  have "Variable_uuid ?m = Variable_uuid ?n"
    by (simp add: Variable_uuid_def yaw_assign_def)
  with e1 r1 e2 r2 l k m y show ?thesis by blast
qed

text \<open>
  C9: \<open>clone()\<close> of the object at a valid address creates a new object and leaves the
  original and the random generator as they were. The clone of a variable has the
  identifier, the timestamp, the device id and the scalars of the original; the clone of a
  constraint has the identifier, the endpoint list and the kind of the original.
  The scalars are held separately: an assignment through \<open>yaw()\<close> of the clone is stored
  in the clone and leaves the original as it was, and the other way round; each of the two
  stays as it is through any sequence of steps that does not assign through its own
  \<open>yaw()\<close>.
\<close>

theorem clone_equal_fields_separate_scalars:
  assumes "a < length (heap w)"
  shows "\<exists>w1. exec ext (Clone a) w = Inr w1 \<and> rng w1 = rng w
           \<and> (\<forall>c. con_at w a = Some c \<longrightarrow>
                 con_at w1 a = Some c
                 \<and> (\<exists>c'. con_at w1 (length (heap w)) = Some c'
                        \<and> Constraint_uuid c' = Constraint_uuid c
                        \<and> Constraint_variables c' = Constraint_variables c
                        \<and> kind c' = kind c))
           \<and> (\<forall>v. var_at w a = Some v \<longrightarrow>
                 var_at w1 a = Some v
                 \<and> (\<exists>v'. var_at w1 (length (heap w)) = Some v'
                        \<and> Variable_uuid v' = Variable_uuid v
                        \<and> v_data v' = v_data v
                        \<and> v_stamp v' = v_stamp v
                        \<and> v_device_id v' = v_device_id v
                        \<and> (\<forall>x. \<exists>w2. exec ext (AssignYaw (length (heap w)) x) w1 = Inr w2
                               \<and> var_at w2 (length (heap w)) = Some (yaw_assign x v')
                               \<and> var_at w2 a = Some v)
                        \<and> (\<forall>x. \<exists>w2. exec ext (AssignYaw a x) w1 = Inr w2
                               \<and> var_at w2 a = Some (yaw_assign x v)
                               \<and> var_at w2 (length (heap w)) = Some v')
                        \<and> (\<forall>cms w2. run ext cms w1 = Inr w2
                               \<longrightarrow> list_all (\<lambda>cm. \<not> writes_to a cm) cms
                               \<longrightarrow> var_at w2 a = Some v)
                        \<and> (\<forall>cms w2. run ext cms w1 = Inr w2
                               \<longrightarrow> list_all (\<lambda>cm. \<not> writes_to (length (heap w)) cm) cms
                               \<longrightarrow> var_at w2 (length (heap w)) = Some v')))"
proof -
  let ?n = "length (heap w)"
  let ?w1 = "\<lparr>heap = heap w @ [clone (heap w ! a)], rng = rng w\<rparr>"
  have e: "exec ext (Clone a) w = Inr ?w1"
    using assms by simp
  have ne: "a \<noteq> ?n"
    using assms by simp
  have con: "\<forall>c. con_at w a = Some c \<longrightarrow>
                 con_at ?w1 a = Some c
                 \<and> (\<exists>c'. con_at ?w1 ?n = Some c'
                        \<and> Constraint_uuid c' = Constraint_uuid c
                        \<and> Constraint_variables c' = Constraint_variables c
                        \<and> kind c' = kind c)"
  proof (intro allI impI)
    fix c
    assume c: "con_at w a = Some c"
    then have o: "heap w ! a = ConObj c"
      by (auto simp: con_at_def split: if_splits obj.splits)
    have "con_at ?w1 a = Some c"
      using c by (rule con_at_append)
    moreover have "con_at ?w1 ?n = Some (Constraint_clone c)"
      using o by (simp add: con_at_new)
    ultimately show "con_at ?w1 a = Some c
                 \<and> (\<exists>c'. con_at ?w1 ?n = Some c'
                        \<and> Constraint_uuid c' = Constraint_uuid c
                        \<and> Constraint_variables c' = Constraint_variables c
                        \<and> kind c' = kind c)"
      by (simp add: Constraint_clone_def Constraint_uuid_def Constraint_variables_def)
  qed
  have var: "\<forall>v. var_at w a = Some v \<longrightarrow>
                 var_at ?w1 a = Some v
                 \<and> (\<exists>v'. var_at ?w1 ?n = Some v'
                        \<and> Variable_uuid v' = Variable_uuid v
                        \<and> v_data v' = v_data v
                        \<and> v_stamp v' = v_stamp v
                        \<and> v_device_id v' = v_device_id v
                        \<and> (\<forall>x. \<exists>w2. exec ext (AssignYaw ?n x) ?w1 = Inr w2
                               \<and> var_at w2 ?n = Some (yaw_assign x v')
                               \<and> var_at w2 a = Some v)
                        \<and> (\<forall>x. \<exists>w2. exec ext (AssignYaw a x) ?w1 = Inr w2
                               \<and> var_at w2 a = Some (yaw_assign x v)
                               \<and> var_at w2 ?n = Some v')
                        \<and> (\<forall>cms w2. run ext cms ?w1 = Inr w2
                               \<longrightarrow> list_all (\<lambda>cm. \<not> writes_to a cm) cms
                               \<longrightarrow> var_at w2 a = Some v)
                        \<and> (\<forall>cms w2. run ext cms ?w1 = Inr w2
                               \<longrightarrow> list_all (\<lambda>cm. \<not> writes_to ?n cm) cms
                               \<longrightarrow> var_at w2 ?n = Some v'))"
  proof (intro allI impI)
    fix v
    assume v: "var_at w a = Some v"
    then have o: "heap w ! a = VarObj v"
      by (auto simp: var_at_def split: if_splits obj.splits)
    let ?v' = "Variable_clone v"
    have orig: "var_at ?w1 a = Some v"
      using v by (rule var_at_append)
    have copy: "var_at ?w1 ?n = Some ?v'"
      using o by (simp add: var_at_new)
    have fields: "Variable_uuid ?v' = Variable_uuid v" "v_data ?v' = v_data v"
      "v_stamp ?v' = v_stamp v" "v_device_id ?v' = v_device_id v"
      by (simp_all add: Variable_clone_def Variable_uuid_def)
    have A: "\<forall>x. \<exists>w2. exec ext (AssignYaw ?n x) ?w1 = Inr w2
               \<and> var_at w2 ?n = Some (yaw_assign x ?v') \<and> var_at w2 a = Some v"
    proof
      fix x
      from ne have "?n \<noteq> a" by simp
      from assign_local [OF copy orig this]
      show "\<exists>w2. exec ext (AssignYaw ?n x) ?w1 = Inr w2
               \<and> var_at w2 ?n = Some (yaw_assign x ?v') \<and> var_at w2 a = Some v" .
    qed
    have B: "\<forall>x. \<exists>w2. exec ext (AssignYaw a x) ?w1 = Inr w2
               \<and> var_at w2 a = Some (yaw_assign x v) \<and> var_at w2 ?n = Some ?v'"
    proof
      fix x
      from assign_local [OF orig copy ne]
      show "\<exists>w2. exec ext (AssignYaw a x) ?w1 = Inr w2
               \<and> var_at w2 a = Some (yaw_assign x v) \<and> var_at w2 ?n = Some ?v'" .
    qed
    have C: "\<forall>cms w2. run ext cms ?w1 = Inr w2
               \<longrightarrow> list_all (\<lambda>cm. \<not> writes_to a cm) cms \<longrightarrow> var_at w2 a = Some v"
      using run_var_untouched [OF _ _ orig] by blast
    have D: "\<forall>cms w2. run ext cms ?w1 = Inr w2
               \<longrightarrow> list_all (\<lambda>cm. \<not> writes_to ?n cm) cms \<longrightarrow> var_at w2 ?n = Some ?v'"
      using run_var_untouched [OF _ _ copy] by blast
    from orig copy fields A B C D
    show "var_at ?w1 a = Some v
                 \<and> (\<exists>v'. var_at ?w1 ?n = Some v'
                        \<and> Variable_uuid v' = Variable_uuid v
                        \<and> v_data v' = v_data v
                        \<and> v_stamp v' = v_stamp v
                        \<and> v_device_id v' = v_device_id v
                        \<and> (\<forall>x. \<exists>w2. exec ext (AssignYaw ?n x) ?w1 = Inr w2
                               \<and> var_at w2 ?n = Some (yaw_assign x v')
                               \<and> var_at w2 a = Some v)
                        \<and> (\<forall>x. \<exists>w2. exec ext (AssignYaw a x) ?w1 = Inr w2
                               \<and> var_at w2 a = Some (yaw_assign x v)
                               \<and> var_at w2 ?n = Some v')
                        \<and> (\<forall>cms w2. run ext cms ?w1 = Inr w2
                               \<longrightarrow> list_all (\<lambda>cm. \<not> writes_to a cm) cms
                               \<longrightarrow> var_at w2 a = Some v)
                        \<and> (\<forall>cms w2. run ext cms ?w1 = Inr w2
                               \<longrightarrow> list_all (\<lambda>cm. \<not> writes_to ?n cm) cms
                               \<longrightarrow> var_at w2 ?n = Some v'))"
      by blast
  qed
  have "rng ?w1 = rng w" by simp
  with e con var show ?thesis by blast
qed

theorem clone_equal_fields_separate_scalars_witness:
  "(0::nat) < length (heap \<lparr>heap = [VarObj \<lparr>v_stamp = \<lparr>sec = 10, nsec = 0\<rparr>, v_device_id = NIL,
                                          v_data = [5], v_uuid = 42\<rparr>], rng = 0::nat\<rparr>)
   \<and> (\<exists>w1 w2 v'.
        exec counter_ext (Clone 0)
          \<lparr>heap = [VarObj \<lparr>v_stamp = \<lparr>sec = 10, nsec = 0\<rparr>, v_device_id = NIL,
                          v_data = [5], v_uuid = 42\<rparr>], rng = 0::nat\<rparr> = Inr w1
        \<and> var_at w1 1 = Some v'
        \<and> v_data v' = [5]
        \<and> Variable_uuid v' = 42
        \<and> run counter_ext [AssignYaw 1 6, Call 0] w1 = Inr w2
        \<and> list_all (\<lambda>cm. \<not> writes_to 0 cm) [AssignYaw 1 6, Call 0]
        \<and> var_at w2 0 = Some \<lparr>v_stamp = \<lparr>sec = 10, nsec = 0\<rparr>, v_device_id = NIL,
                               v_data = [5], v_uuid = 42\<rparr>)"
proof -
  let ?V = "\<lparr>v_stamp = \<lparr>sec = 10, nsec = 0\<rparr>, v_device_id = NIL, v_data = [5], v_uuid = 42\<rparr>"
  let ?W = "\<lparr>heap = [VarObj ?V], rng = 0::nat\<rparr>"
  let ?W1 = "\<lparr>heap = [VarObj ?V, VarObj (Variable_clone ?V)], rng = 0::nat\<rparr>"
  have h: "0 < length (heap ?W)" by simp
  have l: "length (heap ?W) = 1" by simp
  have o: "var_at ?W 0 = Some ?V" by (simp add: var_at_def)
  have e: "exec counter_ext (Clone 0) ?W = Inr ?W1" by simp
  have l0: "list_all (\<lambda>cm. \<not> writes_to 0 cm) [AssignYaw 1 6, Call 0]" by simp
  have "\<exists>w2. run counter_ext [AssignYaw 1 6, Call 0] ?W1 = Inr w2"
    by (simp add: var_at_def)
  then obtain w2 where r: "run counter_ext [AssignYaw 1 6, Call 0] ?W1 = Inr w2" ..
  from clone_equal_fields_separate_scalars [OF h, of counter_ext]
  obtain w1 where e1: "exec counter_ext (Clone 0) ?W = Inr w1"
    and all: "\<forall>v. var_at ?W 0 = Some v \<longrightarrow>
                 var_at w1 0 = Some v
                 \<and> (\<exists>v'. var_at w1 (length (heap ?W)) = Some v'
                        \<and> Variable_uuid v' = Variable_uuid v
                        \<and> v_data v' = v_data v
                        \<and> v_stamp v' = v_stamp v
                        \<and> v_device_id v' = v_device_id v
                        \<and> (\<forall>x. \<exists>w2. exec counter_ext (AssignYaw (length (heap ?W)) x) w1 = Inr w2
                               \<and> var_at w2 (length (heap ?W)) = Some (yaw_assign x v')
                               \<and> var_at w2 0 = Some v)
                        \<and> (\<forall>x. \<exists>w2. exec counter_ext (AssignYaw 0 x) w1 = Inr w2
                               \<and> var_at w2 0 = Some (yaw_assign x v)
                               \<and> var_at w2 (length (heap ?W)) = Some v')
                        \<and> (\<forall>cms w2. run counter_ext cms w1 = Inr w2
                               \<longrightarrow> list_all (\<lambda>cm. \<not> writes_to 0 cm) cms
                               \<longrightarrow> var_at w2 0 = Some v)
                        \<and> (\<forall>cms w2. run counter_ext cms w1 = Inr w2
                               \<longrightarrow> list_all (\<lambda>cm. \<not> writes_to (length (heap ?W)) cm) cms
                               \<longrightarrow> var_at w2 (length (heap ?W)) = Some v'))"
    by blast
  from e e1 have w1: "w1 = ?W1" by simp
  from all o obtain v' where c: "var_at w1 (length (heap ?W)) = Some v'"
    and u: "Variable_uuid v' = Variable_uuid ?V"
    and d: "v_data v' = v_data ?V"
    and keep: "\<forall>cms w2. run counter_ext cms w1 = Inr w2
                 \<longrightarrow> list_all (\<lambda>cm. \<not> writes_to 0 cm) cms \<longrightarrow> var_at w2 0 = Some ?V"
    by blast
  from keep r l0 w1 have k: "var_at w2 0 = Some ?V" by blast
  have u2: "Variable_uuid v' = 42" using u by (simp add: Variable_uuid_def)
  have d2: "v_data v' = [5]" using d by simp
  have c2: "var_at w1 1 = Some v'" using c unfolding l .
  from h e1 c2 d2 u2 r l0 k w1 show ?thesis by blast
qed

end
